theory Spec2Isabelle
  imports Complex_Main
begin

section \<open>Vectors and the numpy operations used by \<open>mbuild/port.py\<close>\<close>

text \<open>
  numpy's float64 arrays of shape (3,) are modelled as triples of real numbers: the
  arithmetic is exact, and rounding is outside this development.
\<close>

datatype vec3 = Vec3 (vx: real) (vy: real) (vz: real)

datatype error = DegenerateVectorError | IndexError | NotANumber

type_synonym ref = nat

definition vadd :: "vec3 \<Rightarrow> vec3 \<Rightarrow> vec3" where
  "vadd a b = Vec3 (vx a + vx b) (vy a + vy b) (vz a + vz b)"

definition vsub :: "vec3 \<Rightarrow> vec3 \<Rightarrow> vec3" where
  "vsub a b = Vec3 (vx a - vx b) (vy a - vy b) (vz a - vz b)"

definition vneg :: "vec3 \<Rightarrow> vec3" where
  "vneg a = Vec3 (- vx a) (- vy a) (- vz a)"

definition smul :: "real \<Rightarrow> vec3 \<Rightarrow> vec3" where
  "smul c a = Vec3 (c * vx a) (c * vy a) (c * vz a)"

definition dot :: "vec3 \<Rightarrow> vec3 \<Rightarrow> real" where
  "dot a b = vx a * vx b + vy a * vy b + vz a * vz b"

text \<open>\<open>np.cross\<close>.\<close>

definition cross :: "vec3 \<Rightarrow> vec3 \<Rightarrow> vec3" where
  "cross a b = Vec3 (vy a * vz b - vz a * vy b)
                    (vz a * vx b - vx a * vz b)
                    (vx a * vy b - vy a * vx b)"

definition norm3 :: "vec3 \<Rightarrow> real" where
  "norm3 a = sqrt (dot a a)"

text \<open>
  \<open>np.allclose(a, b)\<close> with numpy's default tolerances \<open>rtol = 1e-05\<close> and
  \<open>atol = 1e-08\<close>: every component satisfies \<open>|a - b| \<le> atol + rtol * |b|\<close>.
\<close>

definition isclose :: "real \<Rightarrow> real \<Rightarrow> bool" where
  "isclose a b \<longleftrightarrow> \<bar>a - b\<bar> \<le> 1 / 10 ^ 8 + (1 / 10 ^ 5) * \<bar>b\<bar>"

definition allclose :: "vec3 \<Rightarrow> vec3 \<Rightarrow> bool" where
  "allclose a b \<longleftrightarrow> isclose (vx a) (vx b) \<and> isclose (vy a) (vy b) \<and> isclose (vz a) (vz b)"

text \<open>\<open>np.mean(xs, axis=0)\<close> of an array of shape (n, 3); for \<open>n = 0\<close> numpy returns nan.\<close>

definition vsum :: "vec3 list \<Rightarrow> vec3" where
  "vsum ps = foldr vadd ps (Vec3 0 0 0)"

definition mean :: "vec3 list \<Rightarrow> error + vec3" where
  "mean ps = (if ps = [] then Inl NotANumber
              else Inr (smul (1 / real (length ps)) (vsum ps)))"

text \<open>
  An exception ends the computation: \<open>and_then r f\<close> continues with \<open>f\<close> on the value
  of \<open>r\<close>, or returns the error \<open>r\<close> raised.
\<close>

definition and_then :: "error + 'a \<Rightarrow> ('a \<Rightarrow> error + 'b) \<Rightarrow> error + 'b" where
  "and_then r f = (case r of Inl e \<Rightarrow> Inl e | Inr x \<Rightarrow> f x)"

section \<open>VectorMath (\<open>mbuild.coordinate_transform\<close>)\<close>

text \<open>
  Modelled from the spec: \<open>unit_vector\<close> of \<open>mbuild.coordinate_transform\<close>, which is
  not among the sources. The spec: returns \<open>v / |v|\<close> and fails with
  \<open>DegenerateVectorError\<close> when \<open>|v| \<approx> 0\<close>. The spec names no threshold and admits
  every non-zero vector as an orientation, so in exact arithmetic the failure is
  \<open>|v| = 0\<close>.
\<close>

definition unit_vector :: "vec3 \<Rightarrow> error + vec3" where
  "unit_vector v = (if norm3 v = 0 then Inl DegenerateVectorError
                    else Inr (smul (1 / norm3 v) v))"

definition clamp :: "real \<Rightarrow> real \<Rightarrow> real \<Rightarrow> real" where
  "clamp x lo hi = max lo (min hi x)"

text \<open>
  Modelled from the spec: \<open>angle\<close> of \<open>mbuild.coordinate_transform\<close>, which is not
  among the sources. The spec: returns
  \<open>arccos(clamp(unit_vector(a)\<cdot>unit_vector(b), -1, 1))\<close>.
\<close>

definition angle :: "vec3 \<Rightarrow> vec3 \<Rightarrow> error + real" where
  "angle a b =
     and_then (unit_vector a) (\<lambda>ua.
     and_then (unit_vector b) (\<lambda>ub.
       Inr (arccos (clamp (dot ua ub) (- 1) 1))))"

datatype mat3 = Mat3 vec3 vec3 vec3

fun mv :: "mat3 \<Rightarrow> vec3 \<Rightarrow> vec3" where
  "mv (Mat3 r1 r2 r3) v = Vec3 (dot r1 v) (dot r2 v) (dot r3 v)"

text \<open>
  Modelled from the spec: \<open>rotation_matrix\<close>, which is not among the sources. The
  spec: the 3x3 matrix rotating by \<open>theta\<close> radians about \<open>unit_vector(axis)\<close> by the
  axis-angle (Rodrigues) formula; fails with \<open>DegenerateVectorError\<close> if
  \<open>axis \<approx> 0\<close>.
\<close>

definition rotation_matrix :: "real \<Rightarrow> vec3 \<Rightarrow> error + mat3" where
  "rotation_matrix theta axis =
     and_then (unit_vector axis) (\<lambda>k.
       (let c = cos theta; s = sin theta; C = 1 - c;
            x = vx k; y = vy k; z = vz k
        in Inr (Mat3 (Vec3 (c + x * x * C) (x * y * C - z * s) (x * z * C + y * s))
                     (Vec3 (y * x * C + z * s) (c + y * y * C) (y * z * C - x * s))
                     (Vec3 (z * x * C - y * s) (z * y * C + x * s) (c + z * z * C)))))"

section \<open>Particles, Compounds and the store (\<open>mbuild.compound\<close>)\<close>

text \<open>
  Modelled from the spec: \<open>Particle\<close> and \<open>Compound\<close> of \<open>mbuild.compound\<close>, which
  are not among the sources. A Particle is \<open>{name, position, is_ghost}\<close>; a Compound
  is \<open>{name, is_ghost, children}\<close> with insertion-ordered, exclusively owned
  children. Particles are mutable objects that a Port's \<open>anchor\<close> refers to without
  owning them, so they live in a store and the tree holds their references; the
  ownership tree itself is a value. A Port is a Compound that also carries
  \<open>anchor\<close> and \<open>used\<close>.
\<close>

record particle =
  name :: string
  pos :: vec3
  port_particle :: bool

record store =
  cells :: "ref \<Rightarrow> particle"
  next_ref :: ref

datatype compound =
    Particle ref
  | Compound string bool "(string \<times> compound) list"
  | Port string bool "(string \<times> compound) list" "ref option" bool

text \<open>
  Modelled from the spec: the constructor \<open>Particle(name, pos, port_particle)\<close>, which
  is not among the sources. It makes a new Particle \<open>{name, position, is_ghost}\<close>: a
  new object in the store, at the next free reference.
\<close>

definition new_Particle :: "string \<Rightarrow> vec3 \<Rightarrow> bool \<Rightarrow> store \<Rightarrow> compound \<times> store" where
  "new_Particle nm p g st =
     (Particle (next_ref st),
      st\<lparr>cells := (cells st)(next_ref st := \<lparr>name = nm, pos = p, port_particle = g\<rparr>),
         next_ref := Suc (next_ref st)\<rparr>)"

text \<open>
  Modelled from the spec: \<open>Compound.add(child, label)\<close>, which is not among the
  sources. The children of a Compound are an insertion-ordered mapping from names to
  nodes: the child is appended under its label (\<open>port.py\<close> adds every label once).
  The spec gives a Particle no children.
\<close>

fun Compound_add :: "compound \<Rightarrow> string \<Rightarrow> compound \<Rightarrow> compound" where
  "Compound_add child label (Compound n g cs) = Compound n g (cs @ [(label, child)])"
| "Compound_add child label (Port n g cs a u) = Port n g (cs @ [(label, child)]) a u"
| "Compound_add child label (Particle r) = Particle r"

text \<open>
  Modelled from the spec: \<open>Compound.xyz_with_ports\<close>, which is not among the sources:
  the positions of all particles of the subtree, ghosts included, in pre-order over
  the insertion-ordered children. \<open>particles\<close> is that sequence of particles.
\<close>

fun particles :: "compound \<Rightarrow> ref list"
  and particles_children :: "(string \<times> compound) list \<Rightarrow> ref list" where
  "particles (Particle r) = [r]"
| "particles (Compound n g cs) = particles_children cs"
| "particles (Port n g cs a u) = particles_children cs"
| "particles_children [] = []"
| "particles_children (c # cs) = particles (snd c) @ particles_children cs"

definition xyz_with_ports :: "store \<Rightarrow> compound \<Rightarrow> vec3 list" where
  "xyz_with_ports st t = map (\<lambda>r. pos (cells st r)) (particles t)"

text \<open>
  Modelled from the spec: what \<open>rotate\<close> and \<open>translate\<close> share, the change in place
  of the position of every Particle of the subtree, and of nothing else.
\<close>

definition map_positions :: "(vec3 \<Rightarrow> vec3) \<Rightarrow> compound \<Rightarrow> store \<Rightarrow> store" where
  "map_positions f t st =
     st\<lparr>cells := (\<lambda>r. if r \<in> set (particles t)
                        then (cells st r)\<lparr>pos := f (pos (cells st r))\<rparr>
                        else cells st r)\<rparr>"

text \<open>
  Modelled from the spec: \<open>Compound.rotate(theta, axis)\<close>, which is not among the
  sources. It applies \<open>rotation_matrix(theta, axis)\<close> to the position of every Particle
  of the subtree, about the coordinate origin.
\<close>

definition Compound_rotate :: "real \<Rightarrow> vec3 \<Rightarrow> compound \<Rightarrow> store \<Rightarrow> error + store" where
  "Compound_rotate theta around t st =
     and_then (rotation_matrix theta around) (\<lambda>M. Inr (map_positions (mv M) t st))"

text \<open>
  Modelled from the spec: \<open>Compound.translate(delta)\<close>, which is not among the sources.
  It adds \<open>delta\<close> to the position of every Particle of the subtree.
\<close>

definition Compound_translate :: "vec3 \<Rightarrow> compound \<Rightarrow> store \<Rightarrow> store" where
  "Compound_translate by t st = map_positions (\<lambda>p. vadd p by) t st"

section \<open>Port (\<open>mbuild/port.py\<close>)\<close>

text \<open>\<open>Port.center\<close>: \<open>np.mean(self.xyz_with_ports, axis=0)\<close>.\<close>

definition Port_center :: "store \<Rightarrow> compound \<Rightarrow> error + vec3" where
  "Port_center st t = mean (xyz_with_ports st t)"

text \<open>
  \<open>Port.direction\<close>: \<open>unit_vector(self.xyz_with_ports[1] - self.xyz_with_ports[0])\<close>;
  an index out of range raises.
\<close>

definition Port_direction :: "store \<Rightarrow> compound \<Rightarrow> error + vec3" where
  "Port_direction st t =
     (case xyz_with_ports st t of
        p0 # p1 # _ \<Rightarrow> unit_vector (vsub p1 p0)
      | _ \<Rightarrow> Inl IndexError)"

text \<open>
  Modelled from the spec: \<open>Compound.translate_to(point)\<close>, which is not among the
  sources. It computes \<open>delta = point - self.center\<close> and calls \<open>translate(delta)\<close>; on a
  Port \<open>self.center\<close> is \<open>Port.center\<close>.
\<close>

definition Compound_translate_to :: "vec3 \<Rightarrow> compound \<Rightarrow> store \<Rightarrow> error + store" where
  "Compound_translate_to point t st =
     and_then (Port_center st t) (\<lambda>c. Inr (Compound_translate (vsub point c) t st))"

section \<open>CloneEngine (\<open>mbuild.clone\<close>, \<open>Compound._clone\<close>, \<open>Port._clone\<close>)\<close>

text \<open>
  Modelled from the spec: \<open>Compound._clone\<close> on a Particle, which is not among the
  sources. The spec: a node already in the identity map is its recorded counterpart;
  otherwise the node is duplicated with its name, flag and position, and the mapping
  from the original's identity to the new counterpart is recorded. The identity map
  \<open>clone_of\<close> is keyed on particle references. The argument \<open>root_container\<close> is only
  passed along by \<open>port.py\<close> and has no role in the spec.
\<close>

definition Particle_clone :: "ref \<Rightarrow> (ref \<rightharpoonup> ref) \<Rightarrow> store \<Rightarrow> ref \<times> (ref \<rightharpoonup> ref) \<times> store" where
  "Particle_clone r clone_of st =
     (case clone_of r of
        Some r' \<Rightarrow> (r', clone_of, st)
      | None \<Rightarrow>
          (next_ref st, clone_of(r \<mapsto> next_ref st),
           st\<lparr>cells := (cells st)(next_ref st := cells st r),
              next_ref := Suc (next_ref st)\<rparr>))"

text \<open>
  Modelled from the spec: \<open>clone(existing, clone_of, root_container)\<close> on a reference
  that owns nothing, which is not among the sources. The spec: the referenced node is
  looked up in the identity map; when it is found the reference points at the mapped
  counterpart, when it is not the node is cloned on its own and the reference points
  at the new copy. The spec does not say what \<open>clone\<close> returns for an absent
  reference; here it stays absent.
\<close>

definition clone_ref :: "ref option \<Rightarrow> (ref \<rightharpoonup> ref) \<Rightarrow> store
    \<Rightarrow> ref option \<times> (ref \<rightharpoonup> ref) \<times> store" where
  "clone_ref a clone_of st =
     (case a of
        None \<Rightarrow> (None, clone_of, st)
      | Some r \<Rightarrow>
          (case Particle_clone r clone_of st of (r', clone_of', st') \<Rightarrow> (Some r', clone_of', st')))"

text \<open>
  Modelled from the spec: \<open>Compound._clone\<close>, which is not among the sources. The
  spec: every Compound and Particle is duplicated recursively, with its name, flags,
  positions and child order. The \<open>Port\<close> equation is \<open>Port._clone\<close> of \<open>port.py\<close>: the
  Compound part is cloned first (\<open>super()._clone\<close>), then \<open>anchor\<close> is set to
  \<open>clone(self.anchor, clone_of, root_container)\<close> and \<open>used\<close> is copied.
\<close>

fun Compound_clone :: "compound \<Rightarrow> (ref \<rightharpoonup> ref) \<Rightarrow> store \<Rightarrow> compound \<times> (ref \<rightharpoonup> ref) \<times> store"
  and clone_children :: "(string \<times> compound) list \<Rightarrow> (ref \<rightharpoonup> ref) \<Rightarrow> store
    \<Rightarrow> (string \<times> compound) list \<times> (ref \<rightharpoonup> ref) \<times> store" where
  "Compound_clone (Particle r) clone_of st =
     (case Particle_clone r clone_of st of (r', clone_of', st') \<Rightarrow> (Particle r', clone_of', st'))"
| "Compound_clone (Compound n g cs) clone_of st =
     (case clone_children cs clone_of st of (cs', clone_of', st') \<Rightarrow> (Compound n g cs', clone_of', st'))"
| "Compound_clone (Port n g cs a u) clone_of st =
     (case clone_children cs clone_of st of (cs', clone_of1, st1) \<Rightarrow>
      case clone_ref a clone_of1 st1 of (a', clone_of2, st2) \<Rightarrow>
        (Port n g cs' a' u, clone_of2, st2))"
| "clone_children [] clone_of st = ([], clone_of, st)"
| "clone_children (c # cs) clone_of st =
     (case Compound_clone (snd c) clone_of st of (c', clone_of1, st1) \<Rightarrow>
      case clone_children cs clone_of1 st1 of (cs', clone_of2, st2) \<Rightarrow>
        ((fst c, c') # cs', clone_of2, st2))"

text \<open>
  Modelled from the spec: \<open>clone(existing_compound)\<close>, which is not among the sources;
  with no \<open>clone_of\<close> given the identity map starts empty.
\<close>

definition clone :: "compound \<Rightarrow> store \<Rightarrow> compound \<times> store" where
  "clone t st = (case Compound_clone t Map.empty st of (t', clone_of, st') \<Rightarrow> (t', st'))"

section \<open>Port construction (\<open>Port.__init__\<close>)\<close>

text \<open>
  Lines 38 to 59 of \<open>port.py\<close>: the Port, its sub-frame \<open>up\<close> with the four ghost
  particles, \<open>down = clone(up)\<close>, and both added as children.
\<close>

definition Port_build :: "ref option \<Rightarrow> store \<Rightarrow> (compound \<times> compound \<times> compound) \<times> store" where
  "Port_build anchor st0 =
     (let self = Port ''Port'' True [] anchor False;
          up = Compound ''subport'' True [];
          (p, st) = new_Particle ''G'' (Vec3 (5 / 1000) (25 / 10000) (- 25 / 10000)) True st0;
          up = Compound_add p ''middle'' up;
          (p, st) = new_Particle ''G'' (Vec3 (5 / 1000) (225 / 10000) (- 25 / 10000)) True st;
          up = Compound_add p ''top'' up;
          (p, st) = new_Particle ''G'' (Vec3 (- 15 / 1000) (- 75 / 10000) (- 25 / 10000)) True st;
          up = Compound_add p ''left'' up;
          (p, st) = new_Particle ''G'' (Vec3 (5 / 1000) (- 175 / 10000) (75 / 10000)) True st;
          up = Compound_add p ''right'' up;
          (down, st) = clone up st;
          self = Compound_add up ''up'' self;
          self = Compound_add down ''down'' self
      in ((self, up, down), st))"

text \<open>Lines 61 to 71: the three alignment branches.\<close>

definition Port_align :: "vec3 \<Rightarrow> compound \<Rightarrow> compound \<Rightarrow> store \<Rightarrow> error + store" where
  "Port_align orientation self down st =
     (let default_direction = Vec3 0 1 0 in
      and_then (unit_vector (vneg orientation)) (\<lambda>u1.
      if allclose default_direction u1 then
        and_then (Compound_rotate pi (Vec3 0 0 1) down st) (\<lambda>st.
          Compound_rotate pi (Vec3 0 0 1) self st)
      else
        and_then (unit_vector orientation) (\<lambda>u2.
        if allclose default_direction u2 then
          Compound_rotate pi (Vec3 0 0 1) down st
        else
          (let normal = cross default_direction orientation in
           and_then (angle default_direction orientation) (\<lambda>theta.
           and_then (Compound_rotate theta normal self st) (\<lambda>st.
             Compound_rotate pi normal down st))))))"

text \<open>Lines 73 to 76: the move to the anchor and the shift along the orientation.\<close>

definition Port_place :: "ref option \<Rightarrow> vec3 \<Rightarrow> real \<Rightarrow> compound \<Rightarrow> store \<Rightarrow> error + store" where
  "Port_place anchor orientation separation self st =
     and_then (case anchor of
                 None \<Rightarrow> Inr st
               | Some a \<Rightarrow> Compound_translate_to (pos (cells st a)) self st) (\<lambda>st.
     and_then (unit_vector orientation) (\<lambda>u.
       Inr (Compound_translate (smul separation u) self st)))"

text \<open>
  \<open>Port(anchor, orientation, separation)\<close>: the new Port and the store after the
  construction, or the error raised.
\<close>

definition Port_init :: "ref option \<Rightarrow> vec3 option \<Rightarrow> real \<Rightarrow> store \<Rightarrow> error + (compound \<times> store)" where
  "Port_init anchor orientation separation st =
     (let orientation = (case orientation of None \<Rightarrow> Vec3 0 1 0 | Some v \<Rightarrow> v) in
      case Port_build anchor st of ((self, up, down), st) \<Rightarrow>
        and_then (Port_align orientation self down st) (\<lambda>st.
        and_then (Port_place anchor orientation separation self st) (\<lambda>st.
          Inr (self, st))))"

text \<open>The fields of a node and the lookup of a child by its label (\<open>self['up']\<close>).\<close>

fun children :: "compound \<Rightarrow> (string \<times> compound) list" where
  "children (Particle r) = []"
| "children (Compound n g cs) = cs"
| "children (Port n g cs a u) = cs"

definition child :: "compound \<Rightarrow> string \<Rightarrow> compound option" where
  "child t label = map_of (children t) label"

fun anchor :: "compound \<Rightarrow> ref option" where
  "anchor (Port n g cs a u) = a"
| "anchor _ = None"


section \<open>Notions used to state the properties\<close>

text \<open>Two vectors agree within \<open>tol\<close> in every component.\<close>

definition close_to :: "real \<Rightarrow> vec3 \<Rightarrow> vec3 \<Rightarrow> bool" where
  "close_to tol a b \<longleftrightarrow>
     \<bar>vx a - vx b\<bar> \<le> tol \<and> \<bar>vy a - vy b\<bar> \<le> tol \<and> \<bar>vz a - vz b\<bar> \<le> tol"

definition linear3 :: "(vec3 \<Rightarrow> vec3) \<Rightarrow> bool" where
  "linear3 f \<longleftrightarrow>
     (\<forall>a b. f (vadd a b) = vadd (f a) (f b)) \<and> (\<forall>c a. f (smul c a) = smul c (f a))"

text \<open>
  The store in which the particles of \<open>down\<close> were moved by \<open>fd\<close> and the other
  particles of \<open>self\<close> by \<open>fu\<close>.
\<close>

definition pose :: "(vec3 \<Rightarrow> vec3) \<Rightarrow> (vec3 \<Rightarrow> vec3) \<Rightarrow> compound \<Rightarrow> compound \<Rightarrow> store \<Rightarrow> store" where
  "pose fu fd self down st =
     st\<lparr>cells := (\<lambda>r. if r \<in> set (particles down)
                        then (cells st r)\<lparr>pos := fd (pos (cells st r))\<rparr>
                        else if r \<in> set (particles self)
                        then (cells st r)\<lparr>pos := fu (pos (cells st r))\<rparr>
                        else cells st r)\<rparr>"

text \<open>The four canonical points of a sub-frame: middle, top, left, right.\<close>

definition canonical :: "vec3 list" where
  "canonical = [Vec3 (5 / 1000) (25 / 10000) (- 25 / 10000),
                Vec3 (5 / 1000) (225 / 10000) (- 25 / 10000),
                Vec3 (- 15 / 1000) (- 75 / 10000) (- 25 / 10000),
                Vec3 (5 / 1000) (- 175 / 10000) (75 / 10000)]"

text \<open>The shape of a sub-frame and of a Port whose first particle is \<open>n\<close>.\<close>

definition subport :: "ref \<Rightarrow> compound" where
  "subport n = Compound ''subport'' True
     [(''middle'', Particle n), (''top'', Particle (n + 1)),
      (''left'', Particle (n + 2)), (''right'', Particle (n + 3))]"

definition port_tree :: "ref \<Rightarrow> ref option \<Rightarrow> compound" where
  "port_tree n a = Port ''Port'' True [(''up'', subport n), (''down'', subport (n + 4))] a False"

text \<open>
  The anchors of the Ports of a subtree, in the order in which a clone reaches them
  (the children of a Port before its anchor), and every reference a subtree mentions.
\<close>

fun anchors :: "compound \<Rightarrow> ref option list"
  and anchors_children :: "(string \<times> compound) list \<Rightarrow> ref option list" where
  "anchors (Particle r) = []"
| "anchors (Compound n g cs) = anchors_children cs"
| "anchors (Port n g cs a u) = anchors_children cs @ [a]"
| "anchors_children [] = []"
| "anchors_children (c # cs) = anchors (snd c) @ anchors_children cs"

definition refs_of :: "compound \<Rightarrow> ref set" where
  "refs_of t = set (particles t) \<union> {r. Some r \<in> set (anchors t)}"

definition refs_of_children :: "(string \<times> compound) list \<Rightarrow> ref set" where
  "refs_of_children cs = set (particles_children cs) \<union> {r. Some r \<in> set (anchors_children cs)}"

text \<open>
  What holds of the identity map during a clone that started in the store \<open>st0\<close>:
  its keys are particles of \<open>st0\<close>, its values are particles made since, each a copy
  of its original, and no particle of \<open>st0\<close> has changed.
\<close>

definition clone_inv :: "store \<Rightarrow> (ref \<rightharpoonup> ref) \<Rightarrow> store \<Rightarrow> bool" where
  "clone_inv st0 clone_of st \<longleftrightarrow>
     next_ref st0 \<le> next_ref st \<and>
     (\<forall>r. r < next_ref st0 \<longrightarrow> cells st r = cells st0 r) \<and>
     (\<forall>r r'. clone_of r = Some r' \<longrightarrow>
        r < next_ref st0 \<and> next_ref st0 \<le> r' \<and> r' < next_ref st \<and> cells st r' = cells st0 r)"

text \<open>
  What a clone step from the map \<open>clone_of\<close> to the map \<open>clone_of'\<close> has done with the
  particles \<open>ps\<close> and the anchors \<open>as\<close> it went through: they are now keys of the
  map, and the clone holds their images \<open>ps'\<close> and \<open>as'\<close>.
\<close>

definition cloned :: "store \<Rightarrow> (ref \<rightharpoonup> ref) \<Rightarrow> (ref \<rightharpoonup> ref) \<Rightarrow> store
    \<Rightarrow> ref list \<Rightarrow> ref option list \<Rightarrow> ref list \<Rightarrow> ref option list \<Rightarrow> bool" where
  "cloned st0 clone_of clone_of' st' ps as ps' as' \<longleftrightarrow>
     clone_inv st0 clone_of' st' \<and> clone_of \<subseteq>\<^sub>m clone_of' \<and>
     set ps \<subseteq> dom clone_of' \<and> {r. Some r \<in> set as} \<subseteq> dom clone_of' \<and>
     ps' = map (the \<circ> clone_of') ps \<and> as' = map (map_option (the \<circ> clone_of')) as"

text \<open>The record of a ghost particle at a point.\<close>

definition ghost :: "vec3 \<Rightarrow> particle" where
  "ghost p = \<lparr>name = ''G'', pos = p, port_particle = True\<rparr>"

text \<open>A store with one particle, for the examples.\<close>

definition example_store :: store where
  "example_store =
     \<lparr>cells = (\<lambda>r. \<lparr>name = ''C'', pos = Vec3 1 2 3, port_particle = False\<rparr>), next_ref = 1\<rparr>"

text \<open>A Compound holding a used Port and, after it, the particle that anchors the Port.\<close>

definition example_tree :: compound where
  "example_tree = Compound ''C'' False
     [(''port'', Port ''Port'' True [] (Some 0) True), (''atom'', Particle 0)]"

section \<open>Lemmas\<close>

subsection \<open>Errors and vector algebra\<close>

lemma and_then_Inr [simp]: "and_then (Inr x) f = f x"
  by (simp add: and_then_def)

lemma and_then_Inl [simp]: "and_then (Inl e) f = Inl e"
  by (simp add: and_then_def)

lemmas vec_defs = vadd_def vsub_def vneg_def smul_def dot_def cross_def

lemma vec3_eq_iff: "a = b \<longleftrightarrow> vx a = vx b \<and> vy a = vy b \<and> vz a = vz b"
  by (cases a; cases b) simp

lemma dot_self_nonneg: "0 \<le> dot a a"
  by (simp add: dot_def)

lemma norm3_nonneg: "0 \<le> norm3 a"
  by (simp add: norm3_def dot_self_nonneg)

lemma norm3_zero_iff: "norm3 a = 0 \<longleftrightarrow> a = Vec3 0 0 0"
proof -
  have "dot a a = ((vx a)\<^sup>2 + (vy a)\<^sup>2) + (vz a)\<^sup>2"
    by (simp add: dot_def power2_eq_square)
  then have "dot a a = 0 \<longleftrightarrow> vx a = 0 \<and> vy a = 0 \<and> vz a = 0"
    by (simp add: add_nonneg_eq_0_iff)
  then show ?thesis
    by (simp add: norm3_def vec3_eq_iff)
qed

lemma norm3_smul: "norm3 (smul c a) = \<bar>c\<bar> * norm3 a"
proof -
  have "dot (smul c a) (smul c a) = c\<^sup>2 * dot a a"
    by (simp add: vec_defs power2_eq_square algebra_simps)
  then show ?thesis
    by (simp add: norm3_def real_sqrt_mult)
qed

lemma norm3_vneg: "norm3 (vneg a) = norm3 a"
  by (simp add: norm3_def vec_defs)

lemma unit_vector_Inr: "norm3 v \<noteq> 0 \<Longrightarrow> unit_vector v = Inr (smul (1 / norm3 v) v)"
  by (simp add: unit_vector_def)

lemma unit_vector_norm: "unit_vector v = Inr u \<Longrightarrow> norm3 u = 1"
  using norm3_nonneg [of v]
  by (auto simp: unit_vector_def norm3_smul split: if_splits)

lemma unit_vector_vneg: "unit_vector v = Inr u \<Longrightarrow> unit_vector (vneg v) = Inr (vneg u)"
proof -
  assume a: "unit_vector v = Inr u"
  then have n: "norm3 v \<noteq> 0" and u: "u = smul (1 / norm3 v) v"
    by (auto simp: unit_vector_def split: if_splits)
  have "smul (1 / norm3 v) (vneg v) = vneg (smul (1 / norm3 v) v)"
    by (simp add: vec_defs)
  with n u show ?thesis
    by (simp add: unit_vector_def norm3_vneg)
qed

lemma unit_vector_of_unit: "norm3 u = 1 \<Longrightarrow> 0 < c \<Longrightarrow> unit_vector (smul c u) = Inr u"
  by (simp add: unit_vector_def norm3_smul) (simp add: vec_defs)

lemma mv_vsub: "mv M (vsub a b) = vsub (mv M a) (mv M b)"
  by (cases M) (simp add: vec_defs algebra_simps)

lemma mv_vadd: "mv M (vadd a b) = vadd (mv M a) (mv M b)"
  by (cases M) (simp add: vec_defs algebra_simps)

lemma mv_smul: "mv M (smul c a) = smul c (mv M a)"
  by (cases M) (simp add: vec_defs algebra_simps)

lemma rotation_matrix_mv:
  assumes "unit_vector axis = Inr k"
  shows "\<exists>M. rotation_matrix theta axis = Inr M \<and>
     (\<forall>v. mv M v = vadd (vadd (smul (cos theta) v) (smul (sin theta) (cross k v)))
                       (smul ((1 - cos theta) * dot k v) k))"
  using assms by (simp add: rotation_matrix_def Let_def vec_defs algebra_simps)

lemma rot_z_pi:
  "\<exists>M. rotation_matrix pi (Vec3 0 0 1) = Inr M \<and> (\<forall>v. mv M v = Vec3 (- vx v) (- vy v) (vz v))"
  by (simp add: rotation_matrix_def unit_vector_def norm3_def Let_def vec_defs)

subsection \<open>The rotation of the general branch\<close>

lemma unit_vector_default [simp]: "unit_vector (Vec3 0 1 0) = Inr (Vec3 0 1 0)"
  by (simp add: unit_vector_def norm3_def vec_defs)

lemma norm3_sq: "(norm3 a)\<^sup>2 = dot a a"
  by (simp add: norm3_def dot_self_nonneg)

lemma angle_default:
  assumes "norm3 v \<noteq> 0"
  shows "angle (Vec3 0 1 0) v = Inr (arccos (vy v / norm3 v))"
    and "- 1 \<le> vy v / norm3 v" and "vy v / norm3 v \<le> 1"
proof -
  have pos: "0 < norm3 v" using assms norm3_nonneg [of v] by simp
  have "(vy v)\<^sup>2 \<le> dot v v"
    by (simp add: dot_def power2_eq_square)
  then have "(vy v)\<^sup>2 \<le> (norm3 v)\<^sup>2" by (simp add: norm3_sq)
  then have "\<bar>vy v\<bar> \<le> norm3 v"
    using pos by (simp add: abs_le_square_iff [symmetric])
  then have "\<bar>vy v / norm3 v\<bar> \<le> 1" using pos by simp
  then show "- 1 \<le> vy v / norm3 v" and "vy v / norm3 v \<le> 1"
    by linarith+
  then have "clamp (vy v / norm3 v) (- 1) 1 = vy v / norm3 v"
    by (simp add: clamp_def)
  then show "angle (Vec3 0 1 0) v = Inr (arccos (vy v / norm3 v))"
    using assms by (simp add: angle_def unit_vector_Inr vec_defs)
qed

lemma cross_default: "cross (Vec3 0 1 0) v = Vec3 (vz v) 0 (- vx v)"
  by (simp add: cross_def)

lemma general_up:
  assumes nv: "norm3 v \<noteq> 0" and nn: "norm3 (cross (Vec3 0 1 0) v) \<noteq> 0"
    and M: "rotation_matrix (arccos (vy v / norm3 v)) (cross (Vec3 0 1 0) v) = Inr M"
  shows "mv M (Vec3 0 1 0) = smul (1 / norm3 v) v"
proof -
  let ?N = "norm3 v" and ?m = "norm3 (cross (Vec3 0 1 0) v)"
  let ?k = "smul (1 / ?m) (cross (Vec3 0 1 0) v)"
  have Npos: "0 < ?N" using nv norm3_nonneg [of v] by simp
  have mpos: "0 < ?m" using nn norm3_nonneg [of "cross (Vec3 0 1 0) v"] by simp
  have b: "- 1 \<le> vy v / ?N" "vy v / ?N \<le> 1"
    by (rule angle_default(2) [OF nv], rule angle_default(3) [OF nv])
  have msq: "?m\<^sup>2 = (vx v)\<^sup>2 + (vz v)\<^sup>2"
    unfolding norm3_sq by (simp add: cross_default dot_def power2_eq_square)
  have Nsq: "?N\<^sup>2 = (vx v)\<^sup>2 + (vy v)\<^sup>2 + (vz v)\<^sup>2"
    unfolding norm3_sq by (simp add: dot_def power2_eq_square)
  have c: "cos (arccos (vy v / ?N)) = vy v / ?N"
    using b by (rule cos_arccos)
  have N0: "?N\<^sup>2 \<noteq> 0" using Npos by simp
  have "1 - (vy v / ?N)\<^sup>2 = (?N\<^sup>2 - (vy v)\<^sup>2) / ?N\<^sup>2"
    using N0 by (simp add: power_divide diff_divide_distrib)
  also have "\<dots> = ?m\<^sup>2 / ?N\<^sup>2"
    by (simp add: msq Nsq)
  also have "\<dots> = (?m / ?N)\<^sup>2"
    by (simp add: power_divide)
  finally have s: "sin (arccos (vy v / ?N)) = ?m / ?N"
    using b mpos Npos by (simp add: sin_arccos real_sqrt_divide)
  from rotation_matrix_mv [OF unit_vector_Inr [OF nn], of "arccos (vy v / ?N)"] M
  have "mv M (Vec3 0 1 0) =
      vadd (vadd (smul (cos (arccos (vy v / ?N))) (Vec3 0 1 0))
                 (smul (sin (arccos (vy v / ?N))) (cross ?k (Vec3 0 1 0))))
           (smul ((1 - cos (arccos (vy v / ?N))) * dot ?k (Vec3 0 1 0)) ?k)"
    by auto
  also have "\<dots> = smul (1 / ?N) v"
    unfolding c s using mpos Npos
    by (simp add: vec_defs vec3_eq_iff)
  finally show ?thesis .
qed

lemma general_down:
  assumes nn: "norm3 (cross (Vec3 0 1 0) v) \<noteq> 0"
    and M: "rotation_matrix pi (cross (Vec3 0 1 0) v) = Inr M"
  shows "mv M (smul c v) = vneg (smul c v)"
proof -
  let ?m = "norm3 (cross (Vec3 0 1 0) v)"
  let ?k = "smul (1 / ?m) (cross (Vec3 0 1 0) v)"
  have d: "dot ?k (smul c v) = 0"
    by (simp add: vec_defs)
  from rotation_matrix_mv [OF unit_vector_Inr [OF nn], of pi] M
  have "mv M (smul c v) =
      vadd (vadd (smul (cos pi) (smul c v)) (smul (sin pi) (cross ?k (smul c v))))
           (smul ((1 - cos pi) * dot ?k (smul c v)) ?k)"
    by auto
  also have "\<dots> = vneg (smul c v)"
    unfolding d by (simp add: vec_defs)
  finally show ?thesis .
qed

subsection \<open>Tolerance and the degenerate directions\<close>

lemma linear3_mv: "linear3 (mv M)"
  by (simp add: linear3_def mv_vadd mv_smul)

lemma linear3_comp: "linear3 f \<Longrightarrow> linear3 g \<Longrightarrow> linear3 (\<lambda>p. f (g p))"
  by (simp add: linear3_def)

lemma linear3_id: "linear3 (\<lambda>p. p)"
  by (simp add: linear3_def)

lemma allclose_default_unit:
  assumes n: "norm3 b = 1" and c: "allclose (Vec3 0 1 0) b"
  shows "close_to (1 / 10 ^ 6) (Vec3 0 1 0) b"
proof -
  have x: "\<bar>vx b\<bar> \<le> 1 / 10 ^ 6" and z: "\<bar>vz b\<bar> \<le> 1 / 10 ^ 6"
    and y: "\<bar>1 - vy b\<bar> \<le> 1 / 10 ^ 8 + (1 / 10 ^ 5) * \<bar>vy b\<bar>"
    using c by (auto simp: allclose_def isclose_def)
  have ypos: "0 < vy b" using y by (cases "0 \<le> vy b") auto
  have "dot b b = 1" using n norm3_sq [of b] by simp
  then have sq: "(vx b)\<^sup>2 + (vy b)\<^sup>2 + (vz b)\<^sup>2 = 1"
    by (simp add: dot_def power2_eq_square)
  have "(vx b)\<^sup>2 \<le> (1 / 10 ^ 6)\<^sup>2" "(vz b)\<^sup>2 \<le> (1 / 10 ^ 6)\<^sup>2"
    using x z by (simp_all add: abs_le_square_iff [symmetric])
  then have ysq: "1 - 2 * (1 / 10 ^ 6)\<^sup>2 \<le> (vy b)\<^sup>2" using sq by linarith
  have "(vy b)\<^sup>2 \<le> 1"
    using sq zero_le_power2 [of "vx b"] zero_le_power2 [of "vz b"] by linarith
  then have yle: "vy b \<le> 1" using ypos power2_le_imp_le [of "vy b" 1] by simp
  then have "(vy b)\<^sup>2 \<le> vy b" using ypos by (simp add: power2_eq_square mult_left_le)
  moreover have "2 * (1 / 10 ^ 6 :: real)\<^sup>2 \<le> 1 / 10 ^ 6"
    by (simp add: power2_eq_square)
  ultimately have "1 - vy b \<le> 1 / 10 ^ 6" using ysq by linarith
  with yle x z show ?thesis by (simp add: close_to_def)
qed

lemma degenerate_normal:
  assumes nv: "norm3 v \<noteq> 0" and nn: "norm3 (cross (Vec3 0 1 0) v) = 0"
  shows "unit_vector v = Inr (Vec3 0 1 0) \<or> unit_vector (vneg v) = Inr (Vec3 0 1 0)"
proof -
  from nn have "vx v = 0" "vz v = 0"
    by (simp_all add: norm3_zero_iff cross_default)
  have n: "norm3 v = \<bar>vy v\<bar>"
    by (simp add: norm3_def dot_def \<open>vx v = 0\<close> \<open>vz v = 0\<close>)
  with nv have "vy v \<noteq> 0" by simp
  then consider "0 < vy v" | "vy v < 0" by linarith
  then show ?thesis
  proof cases
    case 1
    then have "unit_vector v = Inr (Vec3 0 1 0)"
      using n \<open>vx v = 0\<close> \<open>vz v = 0\<close> by (simp add: unit_vector_def smul_def)
    then show ?thesis ..
  next
    case 2
    then have "unit_vector (vneg v) = Inr (Vec3 0 1 0)"
      using n \<open>vx v = 0\<close> \<open>vz v = 0\<close> by (simp add: unit_vector_def norm3_vneg) (simp add: vec_defs)
    then show ?thesis ..
  qed
qed

lemma allclose_refl_default: "allclose (Vec3 0 1 0) (Vec3 0 1 0)"
  by (simp add: allclose_def isclose_def)

subsection \<open>The three alignment branches\<close>

lemma store_cells_cong: "(\<And>r. f r = g r) \<Longrightarrow> st\<lparr>cells := f\<rparr> = st\<lparr>cells := g\<rparr>"
proof -
  assume "\<And>r. f r = g r"
  then have "f = g" by (rule ext)
  then show ?thesis by simp
qed

lemma map_positions_twice_pose:
  assumes "set (particles down) \<subseteq> set (particles self)"
  shows "map_positions f self (map_positions g down st) = pose f (\<lambda>p. f (g p)) self down st"
    and "map_positions g down (map_positions f self st) = pose f (\<lambda>p. g (f p)) self down st"
    and "map_positions g down st = pose (\<lambda>p. p) g self down st"
proof -
  show "map_positions f self (map_positions g down st) = pose f (\<lambda>p. f (g p)) self down st"
    unfolding map_positions_def pose_def using assms
    by simp (intro store_cells_cong, auto)
  show "map_positions g down (map_positions f self st) = pose f (\<lambda>p. g (f p)) self down st"
    unfolding map_positions_def pose_def using assms
    by simp (intro store_cells_cong, auto)
  show "map_positions g down st = pose (\<lambda>p. p) g self down st"
    unfolding map_positions_def pose_def
    by (intro store_cells_cong) auto
qed

lemma close_to_refl: "0 \<le> tol \<Longrightarrow> close_to tol a a"
  by (simp add: close_to_def)

lemma close_to_vneg: "close_to tol a (vneg b) \<Longrightarrow> close_to tol (vneg a) b"
  by (auto simp: close_to_def vneg_def)

lemma Port_align_pose:
  assumes nv: "norm3 v \<noteq> 0" and sub: "set (particles down) \<subseteq> set (particles self)"
  shows "\<exists>fu fd. Port_align v self down st = Inr (pose fu fd self down st) \<and>
      linear3 fu \<and> linear3 fd \<and>
      fd (Vec3 0 1 0) = vneg (fu (Vec3 0 1 0)) \<and>
      norm3 (fu (Vec3 0 1 0)) = 1 \<and>
      close_to (1 / 10 ^ 6) (fu (Vec3 0 1 0)) (smul (1 / norm3 v) v) \<and>
      (allclose (Vec3 0 1 0) (vneg (smul (1 / norm3 v) v)) \<longrightarrow> fu (Vec3 0 1 0) = Vec3 0 (- 1) 0) \<and>
      (\<not> allclose (Vec3 0 1 0) (vneg (smul (1 / norm3 v) v)) \<longrightarrow>
         allclose (Vec3 0 1 0) (smul (1 / norm3 v) v) \<longrightarrow> fu (Vec3 0 1 0) = Vec3 0 1 0) \<and>
      (\<not> allclose (Vec3 0 1 0) (vneg (smul (1 / norm3 v) v)) \<longrightarrow>
         \<not> allclose (Vec3 0 1 0) (smul (1 / norm3 v) v) \<longrightarrow> fu (Vec3 0 1 0) = smul (1 / norm3 v) v)"
proof -
  let ?d = "Vec3 0 1 0" and ?u = "smul (1 / norm3 v) v"
  have u: "unit_vector v = Inr ?u" by (rule unit_vector_Inr [OF nv])
  have nu: "unit_vector (vneg v) = Inr (vneg ?u)" by (rule unit_vector_vneg [OF u])
  have n1: "norm3 ?u = 1" by (rule unit_vector_norm [OF u])
  obtain Mz where Mz: "rotation_matrix pi (Vec3 0 0 1) = Inr Mz"
    and Mzv: "\<And>p. mv Mz p = Vec3 (- vx p) (- vy p) (vz p)"
    using rot_z_pi by blast
  consider (anti) "allclose ?d (vneg ?u)"
    | (par) "\<not> allclose ?d (vneg ?u)" "allclose ?d ?u"
    | (gen) "\<not> allclose ?d (vneg ?u)" "\<not> allclose ?d ?u"
    by blast
  then show ?thesis
  proof cases
    case anti
    let ?fu = "mv Mz" and ?fd = "\<lambda>p. mv Mz (mv Mz p)"
    have "Port_align v self down st = Inr (pose ?fu ?fd self down st)"
      using anti nu Mz by (simp add: Port_align_def Compound_rotate_def map_positions_twice_pose(1) [OF sub])
    moreover have "linear3 ?fu" "linear3 ?fd"
      by (simp_all add: linear3_mv linear3_comp)
    moreover have fu: "?fu ?d = Vec3 0 (- 1) 0" by (simp add: Mzv)
    moreover have "?fd ?d = vneg (?fu ?d)" by (simp add: Mzv vneg_def)
    moreover have "norm3 (?fu ?d) = 1" by (simp add: Mzv norm3_def dot_def)
    moreover have "close_to (1 / 10 ^ 6) (?fu ?d) ?u"
    proof -
      have "close_to (1 / 10 ^ 6) ?d (vneg ?u)"
        using anti n1 by (intro allclose_default_unit) (simp_all add: norm3_vneg)
      then have "close_to (1 / 10 ^ 6) (vneg ?d) ?u" by (rule close_to_vneg)
      then show ?thesis by (simp add: fu vneg_def)
    qed
    ultimately show ?thesis using anti by blast
  next
    case par
    let ?fu = "\<lambda>p::vec3. p" and ?fd = "mv Mz"
    have "Port_align v self down st = Inr (pose ?fu ?fd self down st)"
      using par nu u Mz by (simp add: Port_align_def Compound_rotate_def map_positions_twice_pose(3) [OF sub])
    moreover have "linear3 ?fu" "linear3 ?fd"
      by (simp_all add: linear3_mv linear3_id)
    moreover have "?fd ?d = vneg (?fu ?d)" by (simp add: Mzv vneg_def)
    moreover have "norm3 (?fu ?d) = 1" by (simp add: norm3_def dot_def)
    moreover have "close_to (1 / 10 ^ 6) (?fu ?d) ?u"
      using par n1 by (intro allclose_default_unit)
    ultimately show ?thesis using par by blast
  next
    case gen
    let ?n = "cross ?d v"
    have nn: "norm3 ?n \<noteq> 0"
    proof
      assume "norm3 ?n = 0"
      from degenerate_normal [OF nv this] u nu
      have "?u = ?d \<or> vneg ?u = ?d" by auto
      with gen allclose_refl_default show False by auto
    qed
    have ang: "angle ?d v = Inr (arccos (vy v / norm3 v))"
      by (rule angle_default(1) [OF nv])
    obtain M where M: "rotation_matrix (arccos (vy v / norm3 v)) ?n = Inr M"
      using rotation_matrix_mv [OF unit_vector_Inr [OF nn]] by blast
    obtain Mn where Mn: "rotation_matrix pi ?n = Inr Mn"
      using rotation_matrix_mv [OF unit_vector_Inr [OF nn]] by blast
    let ?fu = "mv M" and ?fd = "\<lambda>p. mv Mn (mv M p)"
    have "Port_align v self down st = Inr (pose ?fu ?fd self down st)"
      using gen nu u ang M Mn
      by (simp add: Port_align_def Compound_rotate_def Let_def map_positions_twice_pose(2) [OF sub])
    moreover have "linear3 ?fu" "linear3 ?fd"
      by (simp_all add: linear3_mv linear3_comp)
    moreover have fu: "?fu ?d = ?u" by (rule general_up [OF nv nn M])
    moreover have "?fd ?d = vneg (?fu ?d)"
      unfolding fu by (rule general_down [OF nn Mn])
    moreover have "norm3 (?fu ?d) = 1" unfolding fu by (rule n1)
    moreover have "close_to (1 / 10 ^ 6) (?fu ?d) ?u"
      unfolding fu by (simp add: close_to_refl)
    ultimately show ?thesis using gen by blast
  qed
qed

subsection \<open>The store after construction\<close>

lemma particles_subport: "particles (subport n) = [n, n + 1, n + 2, n + 3]"
  by (simp add: subport_def)

lemma particles_port_tree: "particles (port_tree n a) = particles (subport n) @ particles (subport (n + 4))"
  by (simp add: port_tree_def)

lemma Port_build_tree:
  "fst (Port_build a st) = (port_tree (next_ref st) a, subport (next_ref st), subport (next_ref st + 4))"
  by (simp add: Port_build_def new_Particle_def clone_def Particle_clone_def Let_def
      port_tree_def subport_def)

lemma Port_build_next: "next_ref (snd (Port_build a st)) = next_ref st + 8"
  by (simp add: Port_build_def new_Particle_def clone_def Particle_clone_def Let_def)

lemma Port_build_frame: "r < next_ref st \<Longrightarrow> cells (snd (Port_build a st)) r = cells st r"
  by (simp add: Port_build_def new_Particle_def clone_def Particle_clone_def Let_def)

lemma Port_build_xyz:
  "xyz_with_ports (snd (Port_build a st)) (subport (next_ref st)) = canonical"
  "xyz_with_ports (snd (Port_build a st)) (subport (next_ref st + 4)) = canonical"
  by (simp_all add: Port_build_def new_Particle_def clone_def Particle_clone_def Let_def
      xyz_with_ports_def particles_subport canonical_def)

lemma Port_build_ghost:
  "r \<in> set (particles (port_tree (next_ref st) a)) \<Longrightarrow>
     name (cells (snd (Port_build a st)) r) = ''G'' \<and> port_particle (cells (snd (Port_build a st)) r)"
  by (auto simp: Port_build_def new_Particle_def clone_def Particle_clone_def Let_def
      particles_port_tree particles_subport)

subsection \<open>Positions and centroids\<close>

lemma xyz_map_positions_sub:
  "set (particles t') \<subseteq> set (particles t) \<Longrightarrow>
     xyz_with_ports (map_positions f t st) t' = map f (xyz_with_ports st t')"
  by (auto simp: xyz_with_ports_def map_positions_def)

lemma xyz_port_tree:
  "xyz_with_ports st (port_tree n a) =
     xyz_with_ports st (subport n) @ xyz_with_ports st (subport (n + 4))"
  by (simp add: xyz_with_ports_def particles_port_tree)

lemma xyz_pose_up:
  "xyz_with_ports (pose fu fd (port_tree n a) (subport (n + 4)) st) (subport n) =
     map fu (xyz_with_ports st (subport n))"
  by (simp add: xyz_with_ports_def pose_def particles_port_tree particles_subport)

lemma xyz_pose_down:
  "xyz_with_ports (pose fu fd (port_tree n a) (subport (n + 4)) st) (subport (n + 4)) =
     map fd (xyz_with_ports st (subport (n + 4)))"
  by (simp add: xyz_with_ports_def pose_def particles_port_tree particles_subport)

lemma next_ref_pose [simp]: "next_ref (pose fu fd t d st) = next_ref st"
  by (simp add: pose_def)

lemma next_ref_map_positions [simp]: "next_ref (map_positions f t st) = next_ref st"
  by (simp add: map_positions_def)

lemma cells_pose_other: "r \<notin> set (particles t) \<Longrightarrow> r \<notin> set (particles d) \<Longrightarrow> cells (pose fu fd t d st) r = cells st r"
  by (simp add: pose_def)

lemma cells_map_positions_other: "r \<notin> set (particles t) \<Longrightarrow> cells (map_positions f t st) r = cells st r"
  by (simp add: map_positions_def)

lemma name_pose [simp]: "name (cells (pose fu fd t d st) r) = name (cells st r)"
  "port_particle (cells (pose fu fd t d st) r) = port_particle (cells st r)"
  by (simp_all add: pose_def)

lemma name_map_positions [simp]: "name (cells (map_positions f t st) r) = name (cells st r)"
  "port_particle (cells (map_positions f t st) r) = port_particle (cells st r)"
  by (simp_all add: map_positions_def)

lemma linear3_zero: "linear3 f \<Longrightarrow> f (Vec3 0 0 0) = Vec3 0 0 0"
proof -
  assume l: "linear3 f"
  have "f (smul 0 (Vec3 0 0 0)) = smul 0 (f (Vec3 0 0 0))"
    using l unfolding linear3_def by blast
  then show ?thesis by (simp add: smul_def)
qed

lemma linear3_vsum: "linear3 f \<Longrightarrow> vsum (map f ps) = f (vsum ps)"
  by (induction ps) (simp_all add: vsum_def linear3_zero, simp add: linear3_def)

lemma vsum_canonical: "vsum canonical = Vec3 0 0 0"
  by (simp add: vsum_def canonical_def vadd_def)

lemma vsum_append: "vsum (ps @ qs) = vadd (vsum ps) (vsum qs)"
  by (induction ps) (simp_all add: vsum_def vadd_def)

lemma vsum_shift: "vsum (map (\<lambda>p. vadd p d) ps) = vadd (vsum ps) (smul (real (length ps)) d)"
  by (induction ps) (simp_all add: vsum_def vec_defs algebra_simps)

lemma mean_shift:
  "ps \<noteq> [] \<Longrightarrow> mean ps = Inr c \<Longrightarrow> mean (map (\<lambda>p. vadd p d) ps) = Inr (vadd c d)"
proof -
  assume ne: "ps \<noteq> []" and m: "mean ps = Inr c"
  from ne have len: "real (length ps) \<noteq> 0" by simp
  from ne m have c: "c = smul (1 / real (length ps)) (vsum ps)"
    by (simp add: mean_def)
  have "smul (1 / real (length ps)) (vadd (vsum ps) (smul (real (length ps)) d)) = vadd c d"
    unfolding c using len by (simp add: vec_defs field_simps)
  then show ?thesis using ne by (simp add: mean_def vsum_shift)
qed

lemma mean_posed:
  assumes "linear3 fu" "linear3 fd"
  shows "mean (map fu canonical @ map fd canonical) = Inr (Vec3 0 0 0)"
proof -
  have "vsum (map fu canonical @ map fd canonical) = Vec3 0 0 0"
    using assms by (simp add: vsum_append linear3_vsum vsum_canonical linear3_zero vadd_def)
  then show ?thesis by (simp add: mean_def smul_def canonical_def)
qed

subsection \<open>The constructed Port\<close>

lemma vadd_assoc: "vadd (vadd p a) b = vadd p (vadd a b)"
  by (simp add: vadd_def)

lemma vsub_zero: "vsub a (Vec3 0 0 0) = a"
  by (simp add: vsub_def)

lemma subport_sub_port_tree:
  "set (particles (subport n)) \<subseteq> set (particles (port_tree n a))"
  "set (particles (subport (n + 4))) \<subseteq> set (particles (port_tree n a))"
  by (simp_all add: particles_port_tree)

lemma Port_init_result:
  assumes nv: "norm3 v \<noteq> 0"
  shows "\<exists>fu fd D st'.
      Port_init a (Some v) s st = Inr (port_tree (next_ref st) a, st') \<and>
      linear3 fu \<and> linear3 fd \<and>
      fd (Vec3 0 1 0) = vneg (fu (Vec3 0 1 0)) \<and>
      norm3 (fu (Vec3 0 1 0)) = 1 \<and>
      close_to (1 / 10 ^ 6) (fu (Vec3 0 1 0)) (smul (1 / norm3 v) v) \<and>
      (allclose (Vec3 0 1 0) (vneg (smul (1 / norm3 v) v)) \<longrightarrow> fu (Vec3 0 1 0) = Vec3 0 (- 1) 0) \<and>
      (\<not> allclose (Vec3 0 1 0) (vneg (smul (1 / norm3 v) v)) \<longrightarrow>
         allclose (Vec3 0 1 0) (smul (1 / norm3 v) v) \<longrightarrow> fu (Vec3 0 1 0) = Vec3 0 1 0) \<and>
      (\<not> allclose (Vec3 0 1 0) (vneg (smul (1 / norm3 v) v)) \<longrightarrow>
         \<not> allclose (Vec3 0 1 0) (smul (1 / norm3 v) v) \<longrightarrow> fu (Vec3 0 1 0) = smul (1 / norm3 v) v) \<and>
      xyz_with_ports st' (subport (next_ref st)) = map (\<lambda>q. vadd (fu q) D) canonical \<and>
      xyz_with_ports st' (subport (next_ref st + 4)) = map (\<lambda>q. vadd (fd q) D) canonical \<and>
      (a = None \<longrightarrow> D = smul s (smul (1 / norm3 v) v)) \<and>
      (\<forall>r. a = Some r \<longrightarrow> r < next_ref st \<longrightarrow>
         D = vadd (pos (cells st r)) (smul s (smul (1 / norm3 v) v))) \<and>
      next_ref st' = next_ref st + 8 \<and>
      (\<forall>r. r < next_ref st \<longrightarrow> cells st' r = cells st r) \<and>
      (\<forall>r \<in> set (particles (port_tree (next_ref st) a)).
         name (cells st' r) = ''G'' \<and> port_particle (cells st' r))"
proof -
  let ?n = "next_ref st" and ?u = "smul (1 / norm3 v) v"
  let ?self = "port_tree ?n a" and ?up = "subport ?n" and ?down = "subport (?n + 4)"
  define st1 where "st1 = snd (Port_build a st)"
  have pb: "Port_build a st = ((?self, ?up, ?down), st1)"
    using Port_build_tree [of a st] by (simp add: st1_def prod_eq_iff)
  have u: "unit_vector v = Inr ?u" by (rule unit_vector_Inr [OF nv])
  from Port_align_pose [OF nv subport_sub_port_tree(2), of ?n a st1]
  obtain fu fd where al: "Port_align v ?self ?down st1 = Inr (pose fu fd ?self ?down st1)"
    and lin: "linear3 fu" "linear3 fd"
    and dirs: "fd (Vec3 0 1 0) = vneg (fu (Vec3 0 1 0))" "norm3 (fu (Vec3 0 1 0)) = 1"
      "close_to (1 / 10 ^ 6) (fu (Vec3 0 1 0)) ?u"
      "allclose (Vec3 0 1 0) (vneg ?u) \<longrightarrow> fu (Vec3 0 1 0) = Vec3 0 (- 1) 0"
      "\<not> allclose (Vec3 0 1 0) (vneg ?u) \<longrightarrow> allclose (Vec3 0 1 0) ?u \<longrightarrow> fu (Vec3 0 1 0) = Vec3 0 1 0"
      "\<not> allclose (Vec3 0 1 0) (vneg ?u) \<longrightarrow> \<not> allclose (Vec3 0 1 0) ?u \<longrightarrow> fu (Vec3 0 1 0) = ?u"
    by blast
  define st2 where "st2 = pose fu fd ?self ?down st1"
  have up2: "xyz_with_ports st2 ?up = map fu canonical"
    and down2: "xyz_with_ports st2 ?down = map fd canonical"
    by (simp_all add: st2_def xyz_pose_up xyz_pose_down st1_def Port_build_xyz)
  have c2: "Port_center st2 ?self = Inr (Vec3 0 0 0)"
    by (simp add: Port_center_def xyz_port_tree up2 down2 mean_posed lin)
  define D where "D = (case a of None \<Rightarrow> smul s ?u
                       | Some r \<Rightarrow> vadd (pos (cells st2 r)) (smul s ?u))"
  define st3 where "st3 = map_positions (\<lambda>p. vadd p D) ?self st2"
  have place: "Port_place a v s ?self st2 = Inr st3"
  proof (cases a)
    case None
    then show ?thesis
      by (simp add: Port_place_def u Compound_translate_def st3_def D_def)
  next
    case (Some r)
    have "map_positions (\<lambda>p. vadd p (smul s ?u)) ?self
            (map_positions (\<lambda>p. vadd p (pos (cells st2 r))) ?self st2) = st3"
      unfolding st3_def D_def Some map_positions_def
      by (simp, intro store_cells_cong, simp add: vadd_assoc)
    with Some c2 show ?thesis
      by (simp add: Port_place_def u Compound_translate_def Compound_translate_to_def vsub_zero)
  qed
  have init: "Port_init a (Some v) s st = Inr (?self, st3)"
    by (simp add: Port_init_def pb al st2_def [symmetric] place)
  have up3: "xyz_with_ports st3 ?up = map (\<lambda>q. vadd (fu q) D) canonical"
    and down3: "xyz_with_ports st3 ?down = map (\<lambda>q. vadd (fd q) D) canonical"
    by (simp_all add: st3_def xyz_map_positions_sub subport_sub_port_tree up2 down2)
  have frame: "cells st3 r = cells st r" if "r < ?n" for r
  proof -
    have "r \<notin> set (particles ?self)" "r \<notin> set (particles ?down)"
      using that by (auto simp: particles_port_tree particles_subport)
    then show ?thesis
      using that by (simp add: st3_def st2_def cells_map_positions_other cells_pose_other st1_def Port_build_frame)
  qed
  have D_none: "a = None \<longrightarrow> D = smul s ?u" by (simp add: D_def)
  have D_some: "\<forall>r. a = Some r \<longrightarrow> r < ?n \<longrightarrow> D = vadd (pos (cells st r)) (smul s ?u)"
  proof (intro allI impI)
    fix r assume "a = Some r" "r < ?n"
    moreover have "cells st2 r = cells st r" if "r < ?n"
    proof -
      have "r \<notin> set (particles ?self)" "r \<notin> set (particles ?down)"
        using that by (auto simp: particles_port_tree particles_subport)
      then show ?thesis
        using that by (simp add: st2_def cells_pose_other st1_def Port_build_frame)
    qed
    ultimately show "D = vadd (pos (cells st r)) (smul s ?u)" by (simp add: D_def)
  qed
  have nxt: "next_ref st3 = ?n + 8"
    by (simp add: st3_def st2_def st1_def Port_build_next)
  have ghost: "\<forall>r \<in> set (particles ?self). name (cells st3 r) = ''G'' \<and> port_particle (cells st3 r)"
    using Port_build_ghost [of _ st a] by (simp add: st3_def st2_def st1_def)
  show ?thesis
    using init lin dirs up3 down3 D_none D_some nxt frame ghost by blast
qed

subsection \<open>Directions of the frames\<close>

lemma linear3_vsub: "linear3 f \<Longrightarrow> f (vsub a b) = vsub (f a) (f b)"
proof -
  assume l: "linear3 f"
  have "vsub a b = vadd a (smul (- 1) b)" by (simp add: vec_defs)
  then have "f (vsub a b) = vadd (f a) (smul (- 1) (f b))"
    using l by (simp add: linear3_def)
  then show ?thesis by (simp add: vec_defs)
qed

lemma direction_of_frame:
  assumes l: "linear3 f" and n: "norm3 (f (Vec3 0 1 0)) = 1"
    and x: "xyz_with_ports st t = map (\<lambda>q. vadd (f q) D) canonical @ rest"
  shows "Port_direction st t = Inr (f (Vec3 0 1 0))"
proof -
  let ?q0 = "Vec3 (5 / 1000) (25 / 10000) (- 25 / 10000)"
  let ?q1 = "Vec3 (5 / 1000) (225 / 10000) (- 25 / 10000)"
  have "vsub (vadd (f ?q1) D) (vadd (f ?q0) D) = vsub (f ?q1) (f ?q0)"
    by (simp add: vec_defs)
  also have "\<dots> = f (vsub ?q1 ?q0)" by (simp add: linear3_vsub [OF l])
  also have "vsub ?q1 ?q0 = smul (1 / 50) (Vec3 0 1 0)" by (simp add: vec_defs)
  also have "f (smul (1 / 50) (Vec3 0 1 0)) = smul (1 / 50) (f (Vec3 0 1 0))"
    using l by (simp add: linear3_def)
  finally have d: "vsub (vadd (f ?q1) D) (vadd (f ?q0) D) = smul (1 / 50) (f (Vec3 0 1 0))" .
  have "Port_direction st t = unit_vector (vsub (vadd (f ?q1) D) (vadd (f ?q0) D))"
    by (simp add: Port_direction_def x canonical_def)
  also have "\<dots> = Inr (f (Vec3 0 1 0))"
    unfolding d by (rule unit_vector_of_unit [OF n]) simp
  finally show ?thesis .
qed

lemma angle_opposite: "norm3 w = 1 \<Longrightarrow> angle w (vneg w) = Inr pi"
proof -
  assume n: "norm3 w = 1"
  then have u: "unit_vector w = Inr w" "unit_vector (vneg w) = Inr (vneg w)"
    by (simp_all add: unit_vector_def norm3_vneg) (simp_all add: vec_defs)
  have "dot w w = 1" using n norm3_sq [of w] by simp
  then have "dot w (vneg w) = - 1" by (simp add: vec_defs)
  then show ?thesis by (simp add: angle_def u clamp_def)
qed

lemma child_port_tree:
  "child (port_tree n a) ''up'' = Some (subport n)"
  "child (port_tree n a) ''down'' = Some (subport (n + 4))"
  by (simp_all add: child_def port_tree_def)

subsection \<open>The alignment branches taken alone\<close>

lemma Port_align_anti:
  assumes "unit_vector (vneg v) = Inr b" and "allclose (Vec3 0 1 0) b"
  shows "Port_align v t d st1 =
      and_then (Compound_rotate pi (Vec3 0 0 1) d st1) (\<lambda>st. Compound_rotate pi (Vec3 0 0 1) t st)"
  using assms by (simp add: Port_align_def)

lemma Compound_rotate_z: "\<exists>st'. Compound_rotate pi (Vec3 0 0 1) t st = Inr st'"
  using rot_z_pi by (auto simp: Compound_rotate_def)

lemma unit_vector_nonzero: "unit_vector v = Inr u \<Longrightarrow> norm3 v \<noteq> 0 \<and> u = smul (1 / norm3 v) v"
  by (auto simp: unit_vector_def split: if_splits)

subsection \<open>The particles made by the construction\<close>

lemma Port_init_default: "Port_init a None s st = Port_init a (Some (Vec3 0 1 0)) s st"
  by (simp add: Port_init_def)

lemma Port_build_cells:
  "map (cells (snd (Port_build a st))) (particles (port_tree (next_ref st) a)) =
     map ghost (canonical @ canonical)"
  by (simp add: Port_build_def new_Particle_def clone_def Particle_clone_def Let_def
      particles_port_tree particles_subport canonical_def ghost_def)

lemma distinct_port_tree: "distinct (particles (port_tree n a))"
  by (simp add: particles_port_tree particles_subport)

subsection \<open>The identity map of a clone\<close>

lemma cloned_append:
  assumes a: "cloned st0 cm cm1 st1 ps1 as1 ps1' as1'"
    and b: "cloned st0 cm1 cm2 st2 ps2 as2 ps2' as2'"
  shows "cloned st0 cm cm2 st2 (ps1 @ ps2) (as1 @ as2) (ps1' @ ps2') (as1' @ as2')"
proof -
  have le: "cm1 \<subseteq>\<^sub>m cm2" using b by (simp add: cloned_def)
  have agree: "the (cm1 r) = the (cm2 r)" if "r \<in> dom cm1" for r
    using le that by (auto simp: map_le_def)
  have d1: "set ps1 \<subseteq> dom cm1" "{r. Some r \<in> set as1} \<subseteq> dom cm1"
    using a by (simp_all add: cloned_def)
  have p: "map (the \<circ> cm1) ps1 = map (the \<circ> cm2) ps1"
    using d1(1) agree by (auto simp: subset_iff)
  have "map_option (the \<circ> cm1) x = map_option (the \<circ> cm2) x" if "x \<in> set as1" for x
  proof (cases x)
    case None
    then show ?thesis by simp
  next
    case (Some r)
    with that d1(2) have "r \<in> dom cm1" by auto
    then show ?thesis using agree Some by simp
  qed
  then have q: "map (map_option (the \<circ> cm1)) as1 = map (map_option (the \<circ> cm2)) as1"
    by simp
  have "dom cm1 \<subseteq> dom cm2" using le by (rule map_le_implies_dom_le)
  with d1 have d2: "set ps1 \<subseteq> dom cm2" "{r. Some r \<in> set as1} \<subseteq> dom cm2"
    by blast+
  have "cm \<subseteq>\<^sub>m cm2" using a le by (auto simp: cloned_def intro: map_le_trans)
  moreover have "ps1' = map (the \<circ> cm2) ps1" "as1' = map (map_option (the \<circ> cm2)) as1"
    using a p q by (simp_all add: cloned_def)
  ultimately show ?thesis
    using b d2 by (simp add: cloned_def) blast
qed

lemma cloned_refl: "clone_inv st0 cm st \<Longrightarrow> cloned st0 cm cm st [] [] [] []"
  by (simp add: cloned_def)

lemma Particle_clone_cloned:
  assumes inv: "clone_inv st0 cm st" and r: "r < next_ref st0"
    and c: "Particle_clone r cm st = (r', cm', st')"
  shows "cloned st0 cm cm' st' [r] [] [r'] []"
proof (cases "cm r")
  case (Some q)
  with c inv show ?thesis by (auto simp: Particle_clone_def cloned_def)
next
  case None
  with c have r': "r' = next_ref st" and cm': "cm' = cm(r \<mapsto> next_ref st)"
    and st': "st' = st\<lparr>cells := (cells st)(next_ref st := cells st r), next_ref := Suc (next_ref st)\<rparr>"
    by (auto simp: Particle_clone_def)
  have "clone_inv st0 cm' st'"
    unfolding clone_inv_def
  proof (intro conjI allI impI)
    show "next_ref st0 \<le> next_ref st'" using inv by (simp add: st' clone_inv_def)
    show "cells st' q = cells st0 q" if "q < next_ref st0" for q
      using inv that by (auto simp: st' clone_inv_def)
    fix q q' assume m: "cm' q = Some q'"
    show "q < next_ref st0" using m inv r by (auto simp: cm' clone_inv_def split: if_splits)
    show "next_ref st0 \<le> q'" using m inv by (auto simp: cm' clone_inv_def split: if_splits)
    show "q' < next_ref st'" using m inv by (force simp: cm' st' clone_inv_def split: if_splits)
    show "cells st' q' = cells st0 q"
    proof (cases "q = r")
      case True
      with m have "q' = next_ref st" by (simp add: cm')
      with True inv r show ?thesis by (simp add: st' clone_inv_def)
    next
      case False
      with m have old: "cm q = Some q'" by (simp add: cm')
      with inv have "q' < next_ref st" "cells st q' = cells st0 q" by (auto simp: clone_inv_def)
      then show ?thesis by (simp add: st')
    qed
  qed
  moreover have "cm \<subseteq>\<^sub>m cm'" using None by (auto simp: cm' map_le_def)
  ultimately show ?thesis by (simp add: cloned_def cm' r')
qed

lemma clone_ref_cloned:
  assumes inv: "clone_inv st0 cm st" and r: "\<forall>r. a = Some r \<longrightarrow> r < next_ref st0"
    and c: "clone_ref a cm st = (a', cm', st')"
  shows "cloned st0 cm cm' st' [] [a] [] [a']"
proof (cases a)
  case None
  with c inv show ?thesis by (simp add: clone_ref_def cloned_def)
next
  case (Some q)
  obtain q' where pc: "Particle_clone q cm st = (q', cm', st')" and a': "a' = Some q'"
    using c Some by (auto simp: clone_ref_def split: prod.splits)
  from Particle_clone_cloned [OF inv _ pc] r Some
  have "cloned st0 cm cm' st' [q] [] [q'] []" by simp
  then show ?thesis by (simp add: cloned_def Some a')
qed

lemma cloned_inv: "cloned st0 cm cm' st' ps as ps' as' \<Longrightarrow> clone_inv st0 cm' st'"
  by (simp add: cloned_def)

lemma refs_of_simps:
  "refs_of (Particle r) = {r}"
  "refs_of (Compound n g cs) = refs_of_children cs"
  "refs_of (Port n g cs a u) = refs_of_children cs \<union> {r. a = Some r}"
  "refs_of_children [] = {}"
  "refs_of_children (c # cs) = refs_of (snd c) \<union> refs_of_children cs"
  by (auto simp: refs_of_def refs_of_children_def)

lemma Compound_clone_cloned:
  "clone_inv st0 cm st \<Longrightarrow> \<forall>r \<in> refs_of t. r < next_ref st0 \<Longrightarrow>
     Compound_clone t cm st = (t', cm', st') \<Longrightarrow>
     cloned st0 cm cm' st' (particles t) (anchors t) (particles t') (anchors t')"
  and clone_children_cloned:
  "clone_inv st0 cm st \<Longrightarrow> \<forall>r \<in> refs_of_children cs. r < next_ref st0 \<Longrightarrow>
     clone_children cs cm st = (cs', cm', st') \<Longrightarrow>
     cloned st0 cm cm' st' (particles_children cs) (anchors_children cs)
       (particles_children cs') (anchors_children cs')"
proof (induction t cm st and cs cm st arbitrary: t' cm' st' and cs' cm' st'
    rule: Compound_clone_clone_children.induct)
  case (1 r clone_of st)
  obtain r' where pc: "Particle_clone r clone_of st = (r', cm', st')" and t': "t' = Particle r'"
    using "1.prems"(3) by (auto split: prod.splits)
  from Particle_clone_cloned [OF "1.prems"(1) _ pc] "1.prems"(2)
  show ?case by (simp add: t' refs_of_simps)
next
  case (2 n g cs clone_of st)
  obtain cs' where cc: "clone_children cs clone_of st = (cs', cm', st')" and t': "t' = Compound n g cs'"
    using "2.prems"(3) by (auto split: prod.splits)
  from "2.IH" [OF "2.prems"(1) _ cc] "2.prems"(2)
  show ?case by (simp add: t' refs_of_simps)
next
  case (3 n g cs a u clone_of st)
  obtain cs' cm1 st1 a' where cc: "clone_children cs clone_of st = (cs', cm1, st1)"
    and cr: "clone_ref a cm1 st1 = (a', cm', st')" and t': "t' = Port n g cs' a' u"
    using "3.prems"(3) by (auto split: prod.splits)
  from "3.IH" [OF "3.prems"(1) _ cc] "3.prems"(2)
  have c1: "cloned st0 clone_of cm1 st1 (particles_children cs) (anchors_children cs)
       (particles_children cs') (anchors_children cs')"
    by (simp add: refs_of_simps)
  from clone_ref_cloned [OF cloned_inv [OF c1] _ cr] "3.prems"(2)
  have c2: "cloned st0 cm1 cm' st' [] [a] [] [a']" by (simp add: refs_of_simps)
  from cloned_append [OF c1 c2] show ?case by (simp add: t')
next
  case (4 clone_of st)
  then show ?case by (auto simp: cloned_refl)
next
  case (5 c cs clone_of st)
  obtain c' cm1 st1 cs1 where cc: "Compound_clone (snd c) clone_of st = (c', cm1, st1)"
    and cr: "clone_children cs cm1 st1 = (cs1, cm', st')" and t': "cs' = (fst c, c') # cs1"
    using "5.prems"(3) by (auto split: prod.splits)
  from "5.IH"(1) [OF "5.prems"(1) _ cc] "5.prems"(2)
  have c1: "cloned st0 clone_of cm1 st1 (particles (snd c)) (anchors (snd c)) (particles c') (anchors c')"
    by (simp add: refs_of_simps)
  from "5.IH"(2) [OF cc [symmetric] refl cloned_inv [OF c1] _ cr] "5.prems"(2)
  have c2: "cloned st0 cm1 cm' st' (particles_children cs) (anchors_children cs)
       (particles_children cs1) (anchors_children cs1)"
    by (simp add: refs_of_simps)
  from cloned_append [OF c1 c2] show ?case by (simp add: t')
qed

lemma clone_inv_start: "clone_inv st Map.empty st"
  by (simp add: clone_inv_def)

lemma Compound_clone_anchor:
  assumes "Compound_clone t cm st = (t', cm', st')"
    and "anchors t' = map (map_option (the \<circ> cm')) (anchors t)"
  shows "anchor t' = map_option (the \<circ> cm') (anchor t)"
  using assms by (cases t) (auto split: prod.splits)

section \<open>The claims\<close>

text \<open>
  C1. For every non-zero orientation vector, and any anchor and separation, the
  construction of a Port succeeds and the \<open>direction\<close> of the new Port agrees with
  \<open>unit_vector(orientation)\<close> within 1e-6 in every component, whichever alignment
  branch was taken.
\<close>

theorem Port_direction_parallel_orientation:
  assumes "v \<noteq> Vec3 0 0 0"
  shows "\<exists>p st' d u. Port_init a (Some v) s st = Inr (p, st') \<and>
           Port_direction st' p = Inr d \<and> unit_vector v = Inr u \<and> close_to (1 / 10 ^ 6) d u"
proof -
  have nv: "norm3 v \<noteq> 0" using assms by (simp add: norm3_zero_iff)
  from Port_init_result [OF nv, of a s st]
  obtain fu fd D st' where init: "Port_init a (Some v) s st = Inr (port_tree (next_ref st) a, st')"
    and l: "linear3 fu" and n: "norm3 (fu (Vec3 0 1 0)) = 1"
    and c: "close_to (1 / 10 ^ 6) (fu (Vec3 0 1 0)) (smul (1 / norm3 v) v)"
    and up: "xyz_with_ports st' (subport (next_ref st)) = map (\<lambda>q. vadd (fu q) D) canonical"
    by blast
  have "xyz_with_ports st' (port_tree (next_ref st) a) =
      map (\<lambda>q. vadd (fu q) D) canonical @ xyz_with_ports st' (subport (next_ref st + 4))"
    by (simp add: xyz_port_tree up)
  from direction_of_frame [OF l n this]
  have "Port_direction st' (port_tree (next_ref st) a) = Inr (fu (Vec3 0 1 0))" .
  with init c unit_vector_Inr [OF nv] show ?thesis by blast
qed

theorem Port_direction_parallel_orientation_witness:
  "Vec3 1 0 0 \<noteq> Vec3 0 0 0 \<and>
   (\<exists>p st' d. Port_init (Some 0) (Some (Vec3 1 0 0)) (1 / 2) example_store = Inr (p, st') \<and>
      Port_direction st' p = Inr d \<and> close_to (1 / 10 ^ 6) d (Vec3 1 0 0))"
  using Port_direction_parallel_orientation [of "Vec3 1 0 0" "Some 0" "1 / 2" example_store]
  by (simp add: unit_vector_def norm3_def dot_def smul_def)

text \<open>
  C2. For every non-zero orientation vector, the angle between the direction of the
  sub-frame \<open>up\<close> and the direction of the sub-frame \<open>down\<close> of the new Port is
  \<open>\<pi>\<close>, whichever alignment branch was taken. The direction of a sub-frame is
  \<open>Port.direction\<close> read on its own particles.
\<close>

theorem Port_up_down_antiparallel:
  assumes "v \<noteq> Vec3 0 0 0"
  shows "\<exists>p st' up down du dd. Port_init a (Some v) s st = Inr (p, st') \<and>
           child p ''up'' = Some up \<and> child p ''down'' = Some down \<and>
           Port_direction st' up = Inr du \<and> Port_direction st' down = Inr dd \<and>
           angle du dd = Inr pi"
proof -
  have nv: "norm3 v \<noteq> 0" using assms by (simp add: norm3_zero_iff)
  from Port_init_result [OF nv, of a s st]
  obtain fu fd D st' where init: "Port_init a (Some v) s st = Inr (port_tree (next_ref st) a, st')"
    and l: "linear3 fu" "linear3 fd" and n: "norm3 (fu (Vec3 0 1 0)) = 1"
    and opp: "fd (Vec3 0 1 0) = vneg (fu (Vec3 0 1 0))"
    and up: "xyz_with_ports st' (subport (next_ref st)) = map (\<lambda>q. vadd (fu q) D) canonical"
    and down: "xyz_with_ports st' (subport (next_ref st + 4)) = map (\<lambda>q. vadd (fd q) D) canonical"
    by blast
  have nd: "norm3 (fd (Vec3 0 1 0)) = 1" by (simp add: opp norm3_vneg n)
  have du: "Port_direction st' (subport (next_ref st)) = Inr (fu (Vec3 0 1 0))"
    by (rule direction_of_frame [OF l(1) n, where rest = "[]" and D = D]) (simp add: up)
  have dd: "Port_direction st' (subport (next_ref st + 4)) = Inr (vneg (fu (Vec3 0 1 0)))"
    unfolding opp [symmetric]
    by (rule direction_of_frame [OF l(2) nd, where rest = "[]" and D = D]) (simp add: down)
  from init child_port_tree du dd angle_opposite [OF n] show ?thesis by blast
qed

theorem Port_up_down_antiparallel_witness:
  "Vec3 1 1 0 \<noteq> Vec3 0 0 0 \<and>
   (\<exists>p st' up down du dd.
      Port_init None (Some (Vec3 1 1 0)) 0 example_store = Inr (p, st') \<and>
      child p ''up'' = Some up \<and> child p ''down'' = Some down \<and>
      Port_direction st' up = Inr du \<and> Port_direction st' down = Inr dd \<and>
      angle du dd = Inr pi)"
  using Port_up_down_antiparallel [of "Vec3 1 1 0" None 0 example_store]
  by simp

text \<open>
  C3. For every non-zero orientation vector \<open>v\<close> and separation \<open>s\<close>, the \<open>center\<close>
  of the new Port is \<open>anchor.pos + s * unit_vector(v)\<close> when an anchor, a particle
  that exists before the construction, was given, and \<open>s * unit_vector(v)\<close> when
  none was.
\<close>

theorem Port_center_after_init:
  assumes "v \<noteq> Vec3 0 0 0" and "\<forall>r. a = Some r \<longrightarrow> r < next_ref st"
  shows "\<exists>p st' u. Port_init a (Some v) s st = Inr (p, st') \<and> unit_vector v = Inr u \<and>
           Port_center st' p =
             Inr (case a of None \<Rightarrow> smul s u | Some r \<Rightarrow> vadd (pos (cells st r)) (smul s u))"
proof -
  have nv: "norm3 v \<noteq> 0" using assms(1) by (simp add: norm3_zero_iff)
  let ?u = "smul (1 / norm3 v) v"
  from Port_init_result [OF nv, of a s st]
  obtain fu fd D st' where init: "Port_init a (Some v) s st = Inr (port_tree (next_ref st) a, st')"
    and l: "linear3 fu" "linear3 fd"
    and up: "xyz_with_ports st' (subport (next_ref st)) = map (\<lambda>q. vadd (fu q) D) canonical"
    and down: "xyz_with_ports st' (subport (next_ref st + 4)) = map (\<lambda>q. vadd (fd q) D) canonical"
    and D1: "a = None \<longrightarrow> D = smul s ?u"
    and D2: "\<forall>r. a = Some r \<longrightarrow> r < next_ref st \<longrightarrow> D = vadd (pos (cells st r)) (smul s ?u)"
    by blast
  have "xyz_with_ports st' (port_tree (next_ref st) a) =
      map (\<lambda>p. vadd p D) (map fu canonical @ map fd canonical)"
    by (simp add: xyz_port_tree up down comp_def)
  moreover have "mean (map (\<lambda>p. vadd p D) (map fu canonical @ map fd canonical)) =
      Inr (vadd (Vec3 0 0 0) D)"
    by (rule mean_shift [OF _ mean_posed [OF l]]) (simp add: canonical_def)
  ultimately have "Port_center st' (port_tree (next_ref st) a) = Inr D"
    by (simp add: Port_center_def vadd_def)
  moreover have "D = (case a of None \<Rightarrow> smul s ?u | Some r \<Rightarrow> vadd (pos (cells st r)) (smul s ?u))"
    using D1 D2 assms(2) by (cases a) simp_all
  ultimately show ?thesis using init unit_vector_Inr [OF nv] by auto
qed

theorem Port_center_after_init_witness:
  "Vec3 1 0 0 \<noteq> Vec3 0 0 0 \<and> 0 < next_ref example_store \<and>
   (\<exists>p st'. Port_init (Some 0) (Some (Vec3 1 0 0)) (1 / 2) example_store = Inr (p, st') \<and>
      Port_center st' p = Inr (Vec3 (3 / 2) 2 3))"
  using Port_center_after_init [of "Vec3 1 0 0" "Some 0" example_store "1 / 2"]
  by (simp add: example_store_def unit_vector_def norm3_def dot_def smul_def vadd_def)

text \<open>
  C4. When the orientation is antiparallel to the default direction (0,1,0) within the
  tolerance of \<open>allclose\<close>, as (0,-1,0) is, the alignment rotates \<open>down\<close> by \<open>\<pi>\<close>
  about the z-axis and then the whole Port by \<open>\<pi>\<close> about the z-axis, and in the new
  Port the direction of \<open>up\<close> is (0,-1,0) and the direction of \<open>down\<close> is (0,1,0).
\<close>

theorem Port_antiparallel_branch:
  assumes "unit_vector (vneg v) = Inr b" and "allclose (Vec3 0 1 0) b"
  shows "Port_align v t d st1 =
           and_then (Compound_rotate pi (Vec3 0 0 1) d st1)
             (\<lambda>st. Compound_rotate pi (Vec3 0 0 1) t st) \<and>
         (\<exists>p st' up down. Port_init a (Some v) s st = Inr (p, st') \<and>
            child p ''up'' = Some up \<and> child p ''down'' = Some down \<and>
            Port_direction st' up = Inr (Vec3 0 (- 1) 0) \<and>
            Port_direction st' down = Inr (Vec3 0 1 0))"
proof -
  from unit_vector_nonzero [OF assms(1)]
  have nv: "norm3 v \<noteq> 0" by (simp add: norm3_vneg)
  let ?u = "smul (1 / norm3 v) v"
  have "unit_vector (vneg v) = Inr (vneg ?u)"
    by (rule unit_vector_vneg [OF unit_vector_Inr [OF nv]])
  with assms have anti: "allclose (Vec3 0 1 0) (vneg ?u)" by simp
  from Port_init_result [OF nv, of a s st] anti
  obtain fu fd D st' where init: "Port_init a (Some v) s st = Inr (port_tree (next_ref st) a, st')"
    and l: "linear3 fu" "linear3 fd" and n: "norm3 (fu (Vec3 0 1 0)) = 1"
    and opp: "fd (Vec3 0 1 0) = vneg (fu (Vec3 0 1 0))"
    and fu: "fu (Vec3 0 1 0) = Vec3 0 (- 1) 0"
    and up: "xyz_with_ports st' (subport (next_ref st)) = map (\<lambda>q. vadd (fu q) D) canonical"
    and down: "xyz_with_ports st' (subport (next_ref st + 4)) = map (\<lambda>q. vadd (fd q) D) canonical"
    by blast
  have fd: "fd (Vec3 0 1 0) = Vec3 0 1 0" by (simp add: opp fu vneg_def)
  have nd: "norm3 (fd (Vec3 0 1 0)) = 1" by (simp add: opp norm3_vneg n)
  have du: "Port_direction st' (subport (next_ref st)) = Inr (Vec3 0 (- 1) 0)"
    unfolding fu [symmetric]
    by (rule direction_of_frame [OF l(1) n, where rest = "[]" and D = D]) (simp add: up)
  have dd: "Port_direction st' (subport (next_ref st + 4)) = Inr (Vec3 0 1 0)"
    using direction_of_frame [OF l(2) nd, where rest = "[]" and D = D and st = st'
        and t = "subport (next_ref st + 4)"]
    by (simp add: down fd)
  from init child_port_tree du dd Port_align_anti [OF assms] show ?thesis by blast
qed

theorem Port_antiparallel_branch_witness:
  "unit_vector (vneg (Vec3 0 (- 1) 0)) = Inr (Vec3 0 1 0) \<and> allclose (Vec3 0 1 0) (Vec3 0 1 0) \<and>
   (\<exists>p st' up down. Port_init None (Some (Vec3 0 (- 1) 0)) 0 example_store = Inr (p, st') \<and>
      child p ''up'' = Some up \<and> child p ''down'' = Some down \<and>
      Port_direction st' up = Inr (Vec3 0 (- 1) 0) \<and>
      Port_direction st' down = Inr (Vec3 0 1 0))"
proof -
  have u: "unit_vector (vneg (Vec3 0 (- 1) 0)) = Inr (Vec3 0 1 0)"
    by (simp add: vneg_def)
  have c: "allclose (Vec3 0 1 0) (Vec3 0 1 0)"
    by (simp add: allclose_def isclose_def)
  from Port_antiparallel_branch [OF u c, of _ _ _ None 0 example_store] u c show ?thesis by blast
qed

text \<open>
  C5. For every orientation whose unit vector is parallel or antiparallel to the
  default direction (0,1,0) within the tolerance of \<open>allclose\<close>, the construction of a
  Port succeeds: the alignment is one of the two branches that rotate about the z-axis,
  which returns a store for any Port, and no axis is taken from a cross product.
\<close>

theorem Port_degenerate_alignment_succeeds:
  assumes "unit_vector v = Inr u"
    and "allclose (Vec3 0 1 0) u \<or> allclose (Vec3 0 1 0) (vneg u)"
  shows "(\<exists>p st'. Port_init a (Some v) s st = Inr (p, st')) \<and>
         Port_align v t d st1 =
           (if allclose (Vec3 0 1 0) (vneg u)
            then and_then (Compound_rotate pi (Vec3 0 0 1) d st1)
                   (\<lambda>st. Compound_rotate pi (Vec3 0 0 1) t st)
            else Compound_rotate pi (Vec3 0 0 1) d st1) \<and>
         (\<exists>st2. Port_align v t d st1 = Inr st2)"
proof -
  from unit_vector_nonzero [OF assms(1)] have nv: "norm3 v \<noteq> 0" by simp
  have nu: "unit_vector (vneg v) = Inr (vneg u)" by (rule unit_vector_vneg [OF assms(1)])
  have al: "Port_align v t d st1 =
           (if allclose (Vec3 0 1 0) (vneg u)
            then and_then (Compound_rotate pi (Vec3 0 0 1) d st1)
                   (\<lambda>st. Compound_rotate pi (Vec3 0 0 1) t st)
            else Compound_rotate pi (Vec3 0 0 1) d st1)"
    using assms nu by (auto simp: Port_align_def)
  have "\<exists>st2. Port_align v t d st1 = Inr st2"
  proof (cases "allclose (Vec3 0 1 0) (vneg u)")
    case True
    obtain sa where sa: "Compound_rotate pi (Vec3 0 0 1) d st1 = Inr sa"
      using Compound_rotate_z by blast
    obtain sb where "Compound_rotate pi (Vec3 0 0 1) t sa = Inr sb"
      using Compound_rotate_z by blast
    with sa True show ?thesis by (simp add: al)
  next
    case False
    then show ?thesis using Compound_rotate_z [of d st1] by (simp add: al)
  qed
  moreover from Port_init_result [OF nv, of a s st]
  have "\<exists>p st'. Port_init a (Some v) s st = Inr (p, st')" by blast
  ultimately show ?thesis using al by blast
qed

theorem Port_degenerate_alignment_succeeds_witness:
  "unit_vector (Vec3 0 2 0) = Inr (Vec3 0 1 0) \<and> allclose (Vec3 0 1 0) (Vec3 0 1 0) \<and>
   (\<exists>p st'. Port_init (Some 0) (Some (Vec3 0 2 0)) 3 example_store = Inr (p, st'))"
proof -
  have u: "unit_vector (Vec3 0 2 0) = Inr (Vec3 0 1 0)"
    by (simp add: unit_vector_def norm3_def dot_def smul_def)
  have c: "allclose (Vec3 0 1 0) (Vec3 0 1 0)"
    by (simp add: allclose_def isclose_def)
  from Port_degenerate_alignment_succeeds [OF u disjI1 [OF c], of "Some 0" 3 example_store] u c show ?thesis by blast
qed

text \<open>
  C6. For every subtree that has a particle, as every Port has, and every point \<open>p\<close>,
  \<open>translate_to(p)\<close> succeeds and the \<open>center\<close> read afterwards is \<open>p\<close>.
\<close>

theorem translate_to_then_center:
  assumes "particles t \<noteq> []"
  shows "\<exists>st'. Compound_translate_to p t st = Inr st' \<and> Port_center st' t = Inr p"
proof -
  let ?c = "smul (1 / real (length (xyz_with_ports st t))) (vsum (xyz_with_ports st t))"
  have ne: "xyz_with_ports st t \<noteq> []" using assms by (simp add: xyz_with_ports_def)
  then have c: "mean (xyz_with_ports st t) = Inr ?c" by (simp add: mean_def)
  let ?st' = "Compound_translate (vsub p ?c) t st"
  have tr: "Compound_translate_to p t st = Inr ?st'"
    by (simp add: Compound_translate_to_def Port_center_def c)
  have "xyz_with_ports ?st' t = map (\<lambda>q. vadd q (vsub p ?c)) (xyz_with_ports st t)"
    by (simp add: Compound_translate_def xyz_map_positions_sub)
  then have "Port_center ?st' t = Inr (vadd ?c (vsub p ?c))"
    by (simp add: Port_center_def mean_shift [OF ne c])
  moreover have "vadd ?c (vsub p ?c) = p" by (simp add: vadd_def vsub_def)
  ultimately show ?thesis using tr by simp
qed

theorem translate_to_then_center_witness:
  "particles (port_tree 1 None) \<noteq> [] \<and>
   (\<exists>st'. Compound_translate_to (Vec3 1 2 3) (port_tree 1 None) (snd (Port_build None example_store)) = Inr st' \<and>
      Port_center st' (port_tree 1 None) = Inr (Vec3 1 2 3))"
  using translate_to_then_center [of "port_tree 1 None" "Vec3 1 2 3" "snd (Port_build None example_store)"]
  by (simp add: port_tree_def subport_def)

text \<open>
  C7. In the clone of a subtree whose references exist in the store, the anchor of
  every Port is the image of the original anchor under the identity map of the clone:
  a particle made by the clone, hence not the original anchor and not a particle of
  the original tree, with the name and position of the original anchor; and when the
  original anchor is a particle of the subtree, the new anchor is the particle of the
  new tree at the same place. No particle of the original store is changed.
\<close>

theorem clone_anchor_counterpart:
  assumes alloc: "\<forall>r \<in> refs_of t. r < next_ref st"
    and c: "Compound_clone t Map.empty st = (t', clone_of, st')"
  shows "clone t st = (t', st') \<and>
         particles t' = map (the \<circ> clone_of) (particles t) \<and>
         anchors t' = map (map_option (the \<circ> clone_of)) (anchors t) \<and>
         anchor t' = map_option (the \<circ> clone_of) (anchor t) \<and>
         (\<forall>r. Some r \<in> set (anchors t) \<longrightarrow>
            (\<exists>r'. clone_of r = Some r' \<and> r' \<noteq> r \<and> r' \<notin> refs_of t \<and> next_ref st \<le> r' \<and>
               cells st' r' = cells st r \<and>
               (r \<in> set (particles t) \<longrightarrow> r' \<in> set (particles t')))) \<and>
         (\<forall>r. r < next_ref st \<longrightarrow> cells st' r = cells st r)"
proof -
  from Compound_clone_cloned [OF clone_inv_start alloc c]
  have cl: "cloned st Map.empty clone_of st' (particles t) (anchors t) (particles t') (anchors t')" .
  then have inv: "clone_inv st clone_of st'"
    and dom: "{r. Some r \<in> set (anchors t)} \<subseteq> dom clone_of"
    and ps: "particles t' = map (the \<circ> clone_of) (particles t)"
    and as: "anchors t' = map (map_option (the \<circ> clone_of)) (anchors t)"
    by (simp_all add: cloned_def)
  have fresh: "\<exists>r'. clone_of r = Some r' \<and> r' \<noteq> r \<and> r' \<notin> refs_of t \<and> next_ref st \<le> r' \<and>
      cells st' r' = cells st r \<and> (r \<in> set (particles t) \<longrightarrow> r' \<in> set (particles t'))" if "Some r \<in> set (anchors t)" for r
  proof -
    from that dom obtain r' where m: "clone_of r = Some r'" by auto
    with inv have b: "r < next_ref st" "next_ref st \<le> r'" "cells st' r' = cells st r"
      by (auto simp: clone_inv_def)
    then have "r' \<noteq> r" by simp
    moreover have "r' \<notin> refs_of t" using alloc b(2) by auto
    moreover have "r \<in> set (particles t) \<longrightarrow> r' \<in> set (particles t')"
      using m by (force simp: ps)
    ultimately show ?thesis using m b by simp
  qed
  have frame: "\<forall>r. r < next_ref st \<longrightarrow> cells st' r = cells st r"
    using inv by (simp add: clone_inv_def)
  have "clone t st = (t', st')" by (simp add: clone_def c)
  with ps as Compound_clone_anchor [OF c as] fresh frame show ?thesis by blast
qed

theorem clone_anchor_counterpart_witness:
  "fst (Compound_clone example_tree Map.empty example_store) =
     Compound ''C'' False [(''port'', Port ''Port'' True [] (Some 1) True), (''atom'', Particle 1)] \<and>
   anchors (fst (Compound_clone example_tree Map.empty example_store)) = [Some 1] \<and>
   particles (fst (Compound_clone example_tree Map.empty example_store)) = [1] \<and>
   cells (snd (snd (Compound_clone example_tree Map.empty example_store))) 1 = cells example_store 0"
proof -
  have a: "\<forall>r \<in> refs_of example_tree. r < next_ref example_store"
    by (simp add: refs_of_def example_tree_def example_store_def)
  have c: "Compound_clone example_tree Map.empty example_store =
      (fst (Compound_clone example_tree Map.empty example_store),
       fst (snd (Compound_clone example_tree Map.empty example_store)),
       snd (snd (Compound_clone example_tree Map.empty example_store)))"
    by simp
  from clone_anchor_counterpart [OF a c] show ?thesis
    by (simp add: example_tree_def example_store_def Particle_clone_def clone_ref_def)
qed

text \<open>
  C8. Before any rotation the construction has built a ghost Compound named
  \<open>Port\<close> with exactly the children \<open>up\<close> and \<open>down\<close>, each a ghost Compound named
  \<open>subport\<close> with exactly the particles \<open>middle\<close>, \<open>top\<close>, \<open>left\<close>, \<open>right\<close>, all eight
  particles distinct, each a ghost named \<open>G\<close> at its canonical offset; the finished
  Port is this tree, and its eight particles are still ghosts named \<open>G\<close>.
\<close>

theorem Port_structure:
  assumes "orientation \<noteq> Some (Vec3 0 0 0)"
  shows "fst (Port_build a st) =
           (Port ''Port'' True
              [(''up'', subport (next_ref st)), (''down'', subport (next_ref st + 4))] a False,
            subport (next_ref st), subport (next_ref st + 4)) \<and>
         distinct (particles (port_tree (next_ref st) a)) \<and>
         map (cells (snd (Port_build a st))) (particles (port_tree (next_ref st) a)) =
           map ghost (canonical @ canonical) \<and>
         (\<exists>st'. Port_init a orientation s st = Inr (port_tree (next_ref st) a, st') \<and>
            map (\<lambda>r. (name (cells st' r), port_particle (cells st' r)))
                (particles (port_tree (next_ref st) a)) = replicate 8 (''G'', True))"
proof -
  define v where "v = (case orientation of None \<Rightarrow> Vec3 0 1 0 | Some w \<Rightarrow> w)"
  have eq: "Port_init a orientation s st = Port_init a (Some v) s st"
    by (cases orientation) (simp_all add: v_def Port_init_default)
  have "v \<noteq> Vec3 0 0 0" using assms by (cases orientation) (simp_all add: v_def)
  then have nv: "norm3 v \<noteq> 0" by (simp add: norm3_zero_iff)
  from Port_init_result [OF nv, of a s st]
  obtain st' where init: "Port_init a (Some v) s st = Inr (port_tree (next_ref st) a, st')"
    and g: "\<forall>r \<in> set (particles (port_tree (next_ref st) a)).
         name (cells st' r) = ''G'' \<and> port_particle (cells st' r)"
    by blast
  from g have "map (\<lambda>r. (name (cells st' r), port_particle (cells st' r)))
                (particles (port_tree (next_ref st) a)) = replicate 8 (''G'', True)"
    by (simp add: particles_port_tree particles_subport eval_nat_numeral)
  with init eq Port_build_tree [of a st] distinct_port_tree Port_build_cells
  show ?thesis by (simp add: port_tree_def)
qed

theorem Port_structure_witness:
  "Some (Vec3 1 1 0) \<noteq> Some (Vec3 0 0 0) \<and>
   fst (Port_build (Some 0) example_store) =
     (Port ''Port'' True [(''up'', subport 1), (''down'', subport 5)] (Some 0) False,
      subport 1, subport 5) \<and>
   (\<exists>st'. Port_init (Some 0) (Some (Vec3 1 1 0)) 2 example_store = Inr (port_tree 1 (Some 0), st'))"
  using Port_structure [of "Some (Vec3 1 1 0)" "Some 0" example_store 2]
  by (auto simp: example_store_def)


text \<open>
  C10. The construction of a Port changes no particle that existed before it: the
  anchor, and every particle of every tree that existed before, keeps its record and
  so its position.
\<close>

theorem Port_init_frame:
  assumes "v \<noteq> Vec3 0 0 0"
  shows "\<exists>p st'. Port_init a (Some v) s st = Inr (p, st') \<and>
           (\<forall>r. r < next_ref st \<longrightarrow> cells st' r = cells st r) \<and>
           (\<forall>r. a = Some r \<longrightarrow> r < next_ref st \<longrightarrow> pos (cells st' r) = pos (cells st r)) \<and>
           (\<forall>t. (\<forall>r \<in> set (particles t). r < next_ref st) \<longrightarrow>
                xyz_with_ports st' t = xyz_with_ports st t)"
proof -
  have nv: "norm3 v \<noteq> 0" using assms by (simp add: norm3_zero_iff)
  from Port_init_result [OF nv, of a s st]
  obtain st' where init: "Port_init a (Some v) s st = Inr (port_tree (next_ref st) a, st')"
    and fr: "\<forall>r. r < next_ref st \<longrightarrow> cells st' r = cells st r"
    by blast
  from fr have "\<forall>t. (\<forall>r \<in> set (particles t). r < next_ref st) \<longrightarrow>
                xyz_with_ports st' t = xyz_with_ports st t"
    by (simp add: xyz_with_ports_def)
  with init fr show ?thesis by auto
qed

theorem Port_init_frame_witness:
  "Vec3 1 0 0 \<noteq> Vec3 0 0 0 \<and>
   (\<exists>p st'. Port_init (Some 0) (Some (Vec3 1 0 0)) 1 example_store = Inr (p, st') \<and>
      cells st' 0 = cells example_store 0)"
  using Port_init_frame [of "Vec3 1 0 0" "Some 0" 1 example_store]
  by (auto simp: example_store_def)

end
